theory Spec2Isabelle
  imports Complex_Main
begin

section \<open>Reciprocal rank fusion (hybrid\_search.py)\<close>

text \<open>
  Python floats are modelled as reals, Python ints as \<open>int\<close>. Every exception the modelled
  code can raise is a value of \<open>py_error\<close>; \<open>NonFinite\<close> marks the one place where numpy
  would continue with an infinite or NaN value instead of raising (see the judge analysis).
\<close>

datatype py_error = KeyError | ZeroDivisionError | NonFinite

type_synonym ranked = "int \<times> real"

text \<open>
  \<open>rrf_scores[doc_id] = rrf_scores.get(doc_id, 0) + c\<close> on a dict kept as an association
  list in insertion order: an existing key keeps its place, a new key goes to the end.
\<close>

fun dict_add :: "(int \<times> real) list \<Rightarrow> int \<Rightarrow> real \<Rightarrow> (int \<times> real) list" where
  "dict_add [] d c = [(d, 0 + c)]"
| "dict_add ((d', v) # rest) d c =
     (if d' = d then (d', v + c) # rest else (d', v) # dict_add rest d c)"

text \<open>
  \<open>for rank, (doc_id, _) in enumerate(results, 1)\<close>: the loop over one result list, the
  rank counter starting where the caller says. \<open>1 / (k + rank)\<close> raises ZeroDivisionError
  when \<open>k + rank = 0\<close>.
\<close>

fun add_scores :: "int \<Rightarrow> int \<Rightarrow> ranked list \<Rightarrow> (int \<times> real) list \<Rightarrow> py_error + (int \<times> real) list" where
  "add_scores k rank [] rrf_scores = Inr rrf_scores"
| "add_scores k rank ((doc_id, _) # rest) rrf_scores =
     (if k + rank = 0 then Inl ZeroDivisionError
      else add_scores k (rank + 1) rest (dict_add rrf_scores doc_id (1 / real_of_int (k + rank))))"

text \<open>
  \<open>sorted(items, key=lambda x: x[1], reverse=True)\<close>: Python's sort is stable, also with
  \<open>reverse=True\<close>, so it is a stable sort on the negated key.
\<close>

definition sorted_reverse :: "(int \<times> real) list \<Rightarrow> (int \<times> real) list" where
  "sorted_reverse items = sort_key (\<lambda>x. - snd x) items"

definition reciprocal_rank_fusion ::
  "ranked list \<Rightarrow> ranked list \<Rightarrow> int \<Rightarrow> py_error + (int \<times> real) list" where
  "reciprocal_rank_fusion semantic_results keyword_results k =
     (case add_scores k 1 semantic_results [] of
        Inl e \<Rightarrow> Inl e
      | Inr rrf_scores \<Rightarrow>
          (case add_scores k 1 keyword_results rrf_scores of
             Inl e \<Rightarrow> Inl e
           | Inr rrf_scores' \<Rightarrow> Inr (sorted_reverse rrf_scores')))"


subsection \<open>Reference notions for the fusion claims\<close>

text \<open>
  The documents of a list in order of first occurrence, the contribution of one result
  list to one document (\<open>1 / (k + rank)\<close> at every position holding it, ranks counted from
  \<open>rank\<close>), the total over both lists, and the value a dict holds for a key
  (\<open>0\<close> when absent).
\<close>

fun first_seen :: "int list \<Rightarrow> int list" where
  "first_seen [] = []"
| "first_seen (d # ds) = d # filter (\<lambda>d'. d' \<noteq> d) (first_seen ds)"

fun contribution :: "int \<Rightarrow> int \<Rightarrow> ranked list \<Rightarrow> int \<Rightarrow> real" where
  "contribution k rank [] d = 0"
| "contribution k rank ((d', _) # rest) d =
     (if d' = d then 1 / real_of_int (k + rank) else 0) + contribution k (rank + 1) rest d"

definition total_score :: "int \<Rightarrow> ranked list \<Rightarrow> ranked list \<Rightarrow> int \<Rightarrow> real" where
  "total_score k A B d = contribution k 1 A d + contribution k 1 B d"

definition getv :: "(int \<times> real) list \<Rightarrow> int \<Rightarrow> real" where
  "getv acc d = (case map_of acc d of None \<Rightarrow> 0 | Some v \<Rightarrow> v)"

section \<open>The configuration store (rl\_optimizer.py, class RLConfig)\<close>

text \<open>
  The configuration is a Python dict whose keys are those of \<open>default_config\<close>; it is a
  record here, so a key is never missing and the defaults of \<open>get\<close> are never taken at the
  top level. The two weight tables stay dicts (association lists), read with a default.
  \<open>datetime.now()\<close> is a parameter of every operation that reads the clock.
\<close>

type_synonym timestamp = string
type_synonym weights = "(string \<times> real) list"

definition dict_get :: "weights \<Rightarrow> string \<Rightarrow> real \<Rightarrow> real" where
  "dict_get d k dflt = (case map_of d k of None \<Rightarrow> dflt | Some v \<Rightarrow> v)"

text \<open>A numpy float: \<open>np.mean\<close> of an empty list is NaN (with a warning, no exception).\<close>

datatype np_float = Nan | Num real

definition np_mean :: "real list \<Rightarrow> np_float" where
  "np_mean xs = (if xs = [] then Nan else Num (sum_list xs / real (length xs)))"

fun np_sub :: "np_float \<Rightarrow> np_float \<Rightarrow> np_float" where
  "np_sub (Num a) (Num b) = Num (a - b)"
| "np_sub _ _ = Nan"

record web_search_cfg =
  confidence_threshold :: real
  judge_threshold :: real
  enabled :: bool

record reranking_cfg =
  min_score_threshold :: real
  top_k :: int

record performance_entry =
  entry_timestamp :: timestamp
  total_feedback :: nat
  positive_rate :: real
  avg_confidence :: np_float
  web_search_usage :: real

record rl_config =
  version :: int
  last_updated :: timestamp
  web_search :: web_search_cfg
  confidence_weights :: weights
  judge_weights :: weights
  reranking :: reranking_cfg
  learning_rate :: real
  min_samples :: int
  performance_history :: "performance_entry list"

definition default_config :: "timestamp \<Rightarrow> rl_config" where
  "default_config now =
     \<lparr> version = 1,
       last_updated = now,
       web_search = \<lparr> confidence_threshold = 0.7, judge_threshold = 5, enabled = True \<rparr>,
       confidence_weights = [(''retrieval_eval'', 0.5), (''answer_quality'', 0.5)],
       judge_weights = [(''relevance'', 0.4), (''factuality'', 0.4), (''completeness'', 0.2)],
       reranking = \<lparr> min_score_threshold = -12, top_k = 5 \<rparr>,
       learning_rate = 0.1,
       min_samples = 5,
       performance_history = [] \<rparr>"

text \<open>
  The persisted file: absent, present but not loadable, or holding a configuration as
  \<open>_save_config\<close> wrote it. Writing the file is taken to succeed.
\<close>

datatype disk = NoFile | Unreadable | Stored rl_config

record rl_state =
  config :: rl_config
  config_file :: disk

text \<open>
  \<open>_save_config\<close> mutates the dict it is given (timestamp, then version plus one) and
  writes it; the model returns the mutated dict together with the file.
\<close>

definition save_config :: "timestamp \<Rightarrow> rl_config \<Rightarrow> rl_config \<times> disk" where
  "save_config now cfg =
     (let cfg1 = cfg\<lparr> last_updated := now \<rparr>;
          cfg2 = cfg1\<lparr> version := version cfg1 + 1 \<rparr>
      in (cfg2, Stored cfg2))"

text \<open>
  \<open>_load_config\<close>: a loadable file is merged over the defaults (a stored file holds every
  key, so the merge is the stored configuration); an unloadable one gives a copy of the
  defaults; with no file the defaults are saved first, and the copy is taken from the dict
  that \<open>_save_config\<close> has just mutated.
\<close>

definition load_config :: "timestamp \<Rightarrow> disk \<Rightarrow> rl_state" where
  "load_config now file =
     (case file of
        Stored loaded_config \<Rightarrow> \<lparr> config = loaded_config, config_file = file \<rparr>
      | Unreadable \<Rightarrow> \<lparr> config = default_config now, config_file = file \<rparr>
      | NoFile \<Rightarrow>
          (let (saved, file') = save_config now (default_config now)
           in \<lparr> config = saved, config_file = file' \<rparr>))"

text \<open>
  \<open>update(updates)\<close>: \<open>updates\<close> maps top-level keys to their new values; each key
  present replaces the whole value at that key, then the configuration is saved.
\<close>

datatype field_update =
    Web_search web_search_cfg
  | Confidence_weights weights
  | Judge_weights weights
  | Performance_history "performance_entry list"

fun apply_update :: "field_update \<Rightarrow> rl_config \<Rightarrow> rl_config" where
  "apply_update (Web_search v) cfg = cfg\<lparr> web_search := v \<rparr>"
| "apply_update (Confidence_weights v) cfg = cfg\<lparr> confidence_weights := v \<rparr>"
| "apply_update (Judge_weights v) cfg = cfg\<lparr> judge_weights := v \<rparr>"
| "apply_update (Performance_history v) cfg = cfg\<lparr> performance_history := v \<rparr>"

definition update :: "timestamp \<Rightarrow> field_update list \<Rightarrow> rl_state \<Rightarrow> rl_state" where
  "update now updates s =
     (let (saved, file') = save_config now (fold apply_update updates (config s))
      in \<lparr> config = saved, config_file = file' \<rparr>)"

section \<open>The optimizer (rl\_optimizer.py, class RLOptimizer)\<close>

definition calculate_weighted_confidence :: "rl_state \<Rightarrow> real \<Rightarrow> real \<Rightarrow> real" where
  "calculate_weighted_confidence s retrieval_score answer_score =
     (let weights = confidence_weights (config s);
          w_retrieval = dict_get weights ''retrieval_eval'' 0.5;
          w_answer = dict_get weights ''answer_quality'' 0.5;
          retrieval_norm = retrieval_score / 10;
          answer_norm = answer_score / 10;
          confidence = (w_retrieval * retrieval_norm) + (w_answer * answer_norm)
      in max 0 (min 1 confidence))"

text \<open>
  A feedback entry, with the keys the optimizer reads. \<open>f['feedback_type']\<close> raises
  KeyError when the key is absent; the other keys are read with \<open>get\<close>.
\<close>

record feedback_entry =
  feedback_type :: "string option"
  web_search_triggered :: "bool option"
  confidence :: "real option"
  judge_scores :: "weights option"

definition triggered :: "feedback_entry \<Rightarrow> bool" where
  "triggered f = (web_search_triggered f = Some True)"

definition confidence_of :: "feedback_entry \<Rightarrow> real" where
  "confidence_of f = (case confidence f of None \<Rightarrow> 0 | Some c \<Rightarrow> c)"

text \<open>\<open>sum(1 for f in fs if f['feedback_type'] == 'positive')\<close>\<close>

fun count_positive :: "feedback_entry list \<Rightarrow> py_error + nat" where
  "count_positive [] = Inr 0"
| "count_positive (f # fs) =
     (case feedback_type f of
        None \<Rightarrow> Inl KeyError
      | Some t \<Rightarrow>
          (case count_positive fs of
             Inl e \<Rightarrow> Inl e
           | Inr n \<Rightarrow> Inr ((if t = ''positive'' then 1 else 0) + n)))"

text \<open>
  An adjustment record: the parameter with its old and new value (the judge analysis adds
  the correlations). The \<open>reason\<close> and \<open>impact\<close> display strings are left out.
\<close>

datatype adjustment =
    Threshold_adjustment real real
  | Confidence_weights_adjustment weights weights
  | Judge_weights_adjustment weights weights weights

definition analyze_web_search_performance ::
  "timestamp \<Rightarrow> feedback_entry list \<Rightarrow> rl_state \<Rightarrow> py_error + (adjustment option \<times> rl_state)" where
  "analyze_web_search_performance now feedback_data s =
     (let web_feedback = filter triggered feedback_data;
          internal_feedback = filter (\<lambda>f. \<not> triggered f) feedback_data
      in if length web_feedback < 3 \<or> length internal_feedback < 3 then Inr (None, s)
         else
           (case count_positive web_feedback of
              Inl e \<Rightarrow> Inl e
            | Inr web_positive \<Rightarrow>
           (case count_positive internal_feedback of
              Inl e \<Rightarrow> Inl e
            | Inr internal_positive \<Rightarrow>
                (let web_positive_rate = real web_positive / real (length web_feedback);
                     internal_positive_rate = real internal_positive / real (length internal_feedback);
                     current_threshold = confidence_threshold (web_search (config s));
                     lr = learning_rate (config s)
                 in if web_positive_rate > internal_positive_rate + 0.15 then
                      (let delta = (web_positive_rate - internal_positive_rate) * lr;
                           new_threshold = max 0.5 (current_threshold - delta)
                       in Inr (Some (Threshold_adjustment current_threshold new_threshold),
                               update now [Web_search ((web_search (config s))
                                            \<lparr> confidence_threshold := new_threshold \<rparr>)] s))
                    else if internal_positive_rate > web_positive_rate + 0.15 then
                      (let delta = (internal_positive_rate - web_positive_rate) * lr;
                           new_threshold = min 0.9 (current_threshold + delta)
                       in Inr (Some (Threshold_adjustment current_threshold new_threshold),
                               update now [Web_search ((web_search (config s))
                                            \<lparr> confidence_threshold := new_threshold \<rparr>)] s))
                    else Inr (None, s)))))"

definition analyze_confidence_calibration ::
  "timestamp \<Rightarrow> feedback_entry list \<Rightarrow> rl_state \<Rightarrow> py_error + (adjustment option \<times> rl_state)" where
  "analyze_confidence_calibration now feedback_data s =
     (let high = filter (\<lambda>f. confidence_of f \<ge> 0.7) feedback_data
      in if length high \<ge> 3 then
           (case count_positive high of
              Inl e \<Rightarrow> Inl e
            | Inr high_positive \<Rightarrow>
                (let high_conf_positive_rate = real high_positive / real (length high)
                 in if high_conf_positive_rate < 0.6 then
                      (let current_weights = confidence_weights (config s);
                           lr = learning_rate (config s);
                           new_weights =
                             [(''retrieval_eval'', max 0.3 (dict_get current_weights ''retrieval_eval'' 0.5 - lr)),
                              (''answer_quality'', min 0.7 (dict_get current_weights ''answer_quality'' 0.5 + lr))]
                       in Inr (Some (Confidence_weights_adjustment current_weights new_weights),
                               update now [Confidence_weights new_weights] s))
                    else Inr (None, s)))
         else Inr (None, s))"


text \<open>
  The judge analysis. For one metric, the loop collects the score and the feedback value
  (\<open>1\<close> for positive) of every entry whose \<open>judge_scores\<close> holds the metric.
\<close>

fun collect_scores :: "string \<Rightarrow> feedback_entry list \<Rightarrow> py_error + (real \<times> nat) list" where
  "collect_scores metric [] = Inr []"
| "collect_scores metric (f # fs) =
     (case map_of (case judge_scores f of None \<Rightarrow> [] | Some js \<Rightarrow> js) metric of
        None \<Rightarrow> collect_scores metric fs
      | Some score \<Rightarrow>
          (case feedback_type f of
             None \<Rightarrow> Inl KeyError
           | Some t \<Rightarrow>
               (case collect_scores metric fs of
                  Inl e \<Rightarrow> Inl e
                | Inr rest \<Rightarrow> Inr ((score, if t = ''positive'' then 1 else 0) # rest))))"

definition metrics :: "string list" where
  "metrics = [''relevance'', ''factuality'', ''completeness'']"

text \<open>
  \<open>correlations\<close>: a metric gets an entry when at least ten entries carry it; the entry is
  the mean score under positive feedback minus the mean under negative feedback, NaN when
  either group is empty.
\<close>

fun correlations_of :: "string list \<Rightarrow> feedback_entry list \<Rightarrow> py_error + (string \<times> np_float) list" where
  "correlations_of [] feedback_data = Inr []"
| "correlations_of (metric # ms) feedback_data =
     (case collect_scores metric feedback_data of
        Inl e \<Rightarrow> Inl e
      | Inr scored \<Rightarrow>
          (case correlations_of ms feedback_data of
             Inl e \<Rightarrow> Inl e
           | Inr rest \<Rightarrow>
               if length scored \<ge> 10 then
                 (let positive_avg = np_mean (map fst (filter (\<lambda>p. snd p = 1) scored));
                      negative_avg = np_mean (map fst (filter (\<lambda>p. snd p = 0) scored))
                  in Inr ((metric, np_sub positive_avg negative_avg) # rest))
               else Inr rest))"

text \<open>
  The correlations as reals when none is NaN. With a NaN among them \<open>total_corr\<close> is NaN
  and \<open>total_corr > 0\<close> is False.
\<close>

fun finite_values :: "(string \<times> np_float) list \<Rightarrow> weights option" where
  "finite_values [] = Some []"
| "finite_values ((k, Nan) # rest) = None"
| "finite_values ((k, Num v) # rest) =
     (case finite_values rest of None \<Rightarrow> None | Some vs \<Rightarrow> Some ((k, v) # vs))"

definition blend :: "weights \<Rightarrow> weights \<Rightarrow> real \<Rightarrow> string \<Rightarrow> real" where
  "blend current_weights target_weights lr metric =
     (let current = dict_get current_weights metric (1 / 3);
          target = dict_get target_weights metric (1 / 3)
      in current * (1 - lr) + target * lr)"

text \<open>
  The steps of the weight update, one definition per statement of the source:
  \<open>total_corr = sum(abs(v) for v in correlations.values())\<close>, the target weights
  \<open>{k: abs(v) / total_corr}\<close>, the blended weight of each of the three metrics, the
  division of each by their total, and the largest change against the current weights
  (read with default \<open>0\<close>).
\<close>

definition total_corr_of :: "weights \<Rightarrow> real" where
  "total_corr_of corr = sum_list (map (\<lambda>(k, v). \<bar>v\<bar>) corr)"

definition target_weights_of :: "weights \<Rightarrow> weights" where
  "target_weights_of corr = map (\<lambda>(k, v). (k, \<bar>v\<bar> / total_corr_of corr)) corr"

definition blended_weights :: "weights \<Rightarrow> weights \<Rightarrow> real \<Rightarrow> weights" where
  "blended_weights current_weights target_weights lr =
     map (\<lambda>metric. (metric, blend current_weights target_weights lr metric)) metrics"

definition blend_total :: "weights \<Rightarrow> weights \<Rightarrow> real \<Rightarrow> real" where
  "blend_total current_weights target_weights lr =
     sum_list (map snd (blended_weights current_weights target_weights lr))"

definition renormalized :: "weights \<Rightarrow> weights \<Rightarrow> real \<Rightarrow> weights" where
  "renormalized current_weights target_weights lr =
     map (\<lambda>(k, v). (k, v / blend_total current_weights target_weights lr))
       (blended_weights current_weights target_weights lr)"

definition max_change_of :: "weights \<Rightarrow> weights \<Rightarrow> real" where
  "max_change_of current_weights new_weights =
     Max (set (map (\<lambda>(k, v). \<bar>v - dict_get current_weights k 0\<bar>) new_weights))"

text \<open>
  The blended weights are numpy floats, so dividing by a total of zero does not raise: it
  gives infinities or NaN. The model stops there with \<open>NonFinite\<close> rather than follow
  non-finite arithmetic.
\<close>

definition analyze_judge_correlation ::
  "timestamp \<Rightarrow> feedback_entry list \<Rightarrow> rl_state \<Rightarrow> py_error + (adjustment option \<times> rl_state)" where
  "analyze_judge_correlation now feedback_data s =
     (if length feedback_data < 10 then Inr (None, s)
      else
        (case correlations_of metrics feedback_data of
           Inl e \<Rightarrow> Inl e
         | Inr correlations \<Rightarrow>
             if correlations = [] then Inr (None, s)
             else
               (case finite_values correlations of
                  None \<Rightarrow> Inr (None, s)
                | Some corr \<Rightarrow>
                    (let current_weights = judge_weights (config s);
                         lr = learning_rate (config s) * 0.5
                     in if total_corr_of corr > 0 then
                          (let target_weights = target_weights_of corr
                           in if blend_total current_weights target_weights lr = 0 then Inl NonFinite
                              else
                                (let new_weights = renormalized current_weights target_weights lr;
                                     max_change = max_change_of current_weights new_weights
                                 in if max_change > 0.05 then
                                      Inr (Some (Judge_weights_adjustment current_weights new_weights corr),
                                           update now [Judge_weights new_weights] s)
                                    else Inr (None, s)))
                        else Inr (None, s)))))"

text \<open>\<open>history[-50:]\<close> and the other slices: Python's slice with a start or stop only.\<close>

definition slice_from :: "'a list \<Rightarrow> int \<Rightarrow> 'a list" where
  "slice_from xs i =
     (if i < 0 then drop (nat (max 0 (int (length xs) + i))) xs else drop (nat i) xs)"

definition slice_to :: "'a list \<Rightarrow> int \<Rightarrow> 'a list" where
  "slice_to xs j =
     (if j < 0 then take (nat (max 0 (int (length xs) + j))) xs else take (nat j) xs)"

definition performance_entry_of :: "timestamp \<Rightarrow> feedback_entry list \<Rightarrow> nat \<Rightarrow> performance_entry" where
  "performance_entry_of now feedback_data positive =
     \<lparr> entry_timestamp = now,
       total_feedback = length feedback_data,
       positive_rate = real positive / real (length feedback_data),
       avg_confidence = np_mean (map confidence_of feedback_data),
       web_search_usage = real (length (filter triggered feedback_data)) / real (length feedback_data) \<rparr>"

definition record_performance :: "timestamp \<Rightarrow> feedback_entry list \<Rightarrow> rl_state \<Rightarrow> py_error + rl_state" where
  "record_performance now feedback_data s =
     (if feedback_data = [] then Inr s
      else
        (case count_positive feedback_data of
           Inl e \<Rightarrow> Inl e
         | Inr positive \<Rightarrow>
             (let history = performance_history (config s) @ [performance_entry_of now feedback_data positive];
                  history' = (if length history > 50 then slice_from history (-50) else history)
              in Inr (update now [Performance_history history'] s))))"

datatype run_result =
    Insufficient_data int nat
  | Adjustments "adjustment list"

text \<open>
  \<open>update_from_feedback\<close>. An exception leaves the optimizer in the state reached so far,
  so the result pairs the outcome with the state.
\<close>

definition update_from_feedback ::
  "timestamp \<Rightarrow> feedback_entry list \<Rightarrow> rl_state \<Rightarrow> (py_error + run_result) \<times> rl_state" where
  "update_from_feedback now feedback_data s =
     (if int (length feedback_data) < min_samples (config s) then
        (Inr (Insufficient_data (min_samples (config s)) (length feedback_data)), s)
      else
        (case analyze_web_search_performance now feedback_data s of
           Inl e \<Rightarrow> (Inl e, s)
         | Inr (web_adjustment, s1) \<Rightarrow>
        (case analyze_confidence_calibration now feedback_data s1 of
           Inl e \<Rightarrow> (Inl e, s1)
         | Inr (confidence_adjustment, s2) \<Rightarrow>
        (case analyze_judge_correlation now feedback_data s2 of
           Inl e \<Rightarrow> (Inl e, s2)
         | Inr (judge_adjustment, s3) \<Rightarrow>
        (case record_performance now feedback_data s3 of
           Inl e \<Rightarrow> (Inl e, s3)
         | Inr s4 \<Rightarrow>
             (Inr (Adjustments
                     (concat (map (\<lambda>a. case a of None \<Rightarrow> [] | Some x \<Rightarrow> [x])
                        [web_adjustment, confidence_adjustment, judge_adjustment]))), s4))))))"

text \<open>A sequence of optimizer runs, each with its clock reading and its batch.\<close>

fun runs :: "(timestamp \<times> feedback_entry list) list \<Rightarrow> rl_state \<Rightarrow> rl_state" where
  "runs [] s = s"
| "runs ((now, feedback_data) # rest) s = runs rest (snd (update_from_feedback now feedback_data s))"

subsection \<open>The trend query, in double precision\<close>

text \<open>
  The label returned by the trend query turns on the last bit of a difference of two
  doubles, so this query is modelled in binary64. A value is NaN, an infinity, or a
  finite real that is a double (the sign of zero is not kept). \<open>fl\<close> rounds a real to
  the nearest double, ties to even, with the subnormal range and overflow to infinity:
  \<open>exponent x\<close> is the binary exponent of \<open>x > 0\<close>, held at \<open>-1022\<close> below the normal range
  and at \<open>1023\<close> above it, and the unit in the last place is \<open>2 ^ (exponent x - 52)\<close>.
\<close>

datatype float64 = NaN64 | PosInf | NegInf | Finite real

definition pow2 :: "int \<Rightarrow> real" where
  "pow2 e = (if 0 \<le> e then 2 ^ nat e else 1 / 2 ^ nat (- e))"

function exp_up :: "int \<Rightarrow> real \<Rightarrow> int" where
  "exp_up e x = (if e < 1023 \<and> pow2 (e + 1) \<le> x then exp_up (e + 1) x else e)"
  by pat_completeness auto
termination
  by (relation "measure (\<lambda>(e, x). nat (1023 - e))") auto

function exp_down :: "int \<Rightarrow> real \<Rightarrow> int" where
  "exp_down e x = (if - 1022 < e \<and> x < pow2 e then exp_down (e - 1) x else e)"
  by pat_completeness auto
termination
  by (relation "measure (\<lambda>(e, x). nat (e + 1022))") auto

declare exp_up.simps [simp del]
declare exp_down.simps [simp del]

definition exponent :: "real \<Rightarrow> int" where
  "exponent x = (if 1 \<le> x then exp_up 0 x else exp_down 0 x)"

definition round_even :: "real \<Rightarrow> int" where
  "round_even y =
     (let f = \<lfloor>y\<rfloor>
      in if y - real_of_int f < 1 / 2 then f
         else if 1 / 2 < y - real_of_int f then f + 1
         else if even f then f else f + 1)"

definition max_finite :: real where
  "max_finite = (2 - 1 / 2 ^ 52) * 2 ^ 1023"

definition fl_pos :: "real \<Rightarrow> float64" where
  "fl_pos x =
     (let u = pow2 (exponent x - 52);
          r = real_of_int (round_even (x / u)) * u
      in if max_finite < r then PosInf else Finite r)"

fun f_neg :: "float64 \<Rightarrow> float64" where
  "f_neg NaN64 = NaN64"
| "f_neg PosInf = NegInf"
| "f_neg NegInf = PosInf"
| "f_neg (Finite a) = Finite (- a)"

definition fl :: "real \<Rightarrow> float64" where
  "fl x = (if x = 0 then Finite 0 else if 0 < x then fl_pos x else f_neg (fl_pos (- x)))"

text \<open>Subtraction of two doubles, and \<open>x > c\<close> for a double \<open>x\<close> and a finite \<open>c\<close>.\<close>

fun f_sub :: "float64 \<Rightarrow> float64 \<Rightarrow> float64" where
  "f_sub (Finite a) (Finite b) = fl (a - b)"
| "f_sub NaN64 _ = NaN64"
| "f_sub _ NaN64 = NaN64"
| "f_sub PosInf PosInf = NaN64"
| "f_sub NegInf NegInf = NaN64"
| "f_sub PosInf _ = PosInf"
| "f_sub NegInf _ = NegInf"
| "f_sub (Finite a) PosInf = NegInf"
| "f_sub (Finite a) NegInf = PosInf"

fun f_gt :: "float64 \<Rightarrow> real \<Rightarrow> bool" where
  "f_gt (Finite a) c = (a > c)"
| "f_gt PosInf c = True"
| "f_gt NegInf c = False"
| "f_gt NaN64 c = False"

text \<open>The double that the literal \<open>0.02\<close> denotes.\<close>

definition literal_002 :: real where
  "literal_002 = 5764607523034235 / 288230376151711744"

datatype trend_result =
    Trend_insufficient_data
  | Trend_success float64 float64 float64 string nat

text \<open>
  \<open>get_performance_trend\<close>. A snapshot holds its positive rate as the real it approximates;
  the query reads it as the double nearest to it, which is what the source holds (the
  true division of two ints is correctly rounded). \<open>np.mean\<close> belongs to numpy, whose
  order of summation is not fixed by this repository: it is the parameter \<open>mean\<close>.
\<close>

definition get_performance_trend :: "(float64 list \<Rightarrow> float64) \<Rightarrow> rl_state \<Rightarrow> trend_result" where
  "get_performance_trend mean s =
     (let history = performance_history (config s)
      in if length history < 2 then Trend_insufficient_data
         else
           (let recent = (if length history \<ge> 5 then slice_from history (-5)
                          else slice_from history ((- int (length history)) div 2));
                older = (if length history \<ge> 10 then slice_to history 5
                         else slice_to history (int (length history) div 2));
                recent_positive_rate = mean (map (\<lambda>h. fl (positive_rate h)) recent);
                older_positive_rate = mean (map (\<lambda>h. fl (positive_rate h)) older);
                improvement = f_sub recent_positive_rate older_positive_rate
            in Trend_success recent_positive_rate older_positive_rate improvement
                 (if f_gt improvement literal_002 then ''improving''
                  else if f_gt improvement (- literal_002) then ''stable'' else ''declining'')
                 (length history)))"

subsection \<open>Reference notions for the optimizer claims\<close>

text \<open>
  The trend query as the specification words it: both windows hold \<open>min(5, n div 2)\<close>
  snapshots, the recent one taken from the end and the older one from the start, and the
  trend is declining only below \<open>-0.02\<close>.
\<close>

definition spec_trend :: "(float64 list \<Rightarrow> float64) \<Rightarrow> performance_entry list \<Rightarrow> trend_result" where
  "spec_trend mean history =
     (let n = length history; w = min 5 (n div 2);
          recent = mean (map (\<lambda>h. fl (positive_rate h)) (drop (n - w) history));
          older = mean (map (\<lambda>h. fl (positive_rate h)) (take w history));
          improvement = f_sub recent older
      in Trend_success recent older improvement
           (case improvement of
              Finite i \<Rightarrow> if i > literal_002 then ''improving''
                          else if i < - literal_002 then ''declining'' else ''stable''
            | PosInf \<Rightarrow> ''improving''
            | NegInf \<Rightarrow> ''declining''
            | NaN64 \<Rightarrow> ''stable'')
           n)"

text \<open>
  What \<open>np.mean\<close> returns on a non-empty list of finite doubles when no addition of its
  sum rounds, so that the order of summation is immaterial: the exact sum divided by the
  length, rounded once. It instantiates \<open>mean\<close> on such lists only.
\<close>

fun finite_values64 :: "float64 list \<Rightarrow> real list option" where
  "finite_values64 [] = Some []"
| "finite_values64 (Finite a # xs) =
     (case finite_values64 xs of None \<Rightarrow> None | Some rs \<Rightarrow> Some (a # rs))"
| "finite_values64 (_ # xs) = None"

definition exact_sum_mean :: "float64 list \<Rightarrow> float64" where
  "exact_sum_mean xs =
     (case finite_values64 xs of
        None \<Rightarrow> NaN64
      | Some rs \<Rightarrow> if rs = [] then NaN64 else fl (sum_list rs / real (length rs)))"

text \<open>
  What every reachable configuration satisfies: the threshold within its bounds, a learning
  rate in \<open>(0, 1)\<close>, at least one sample asked for, and judge weights that are read as
  non-negative numbers with a positive sum.
\<close>

definition config_ok :: "rl_config \<Rightarrow> bool" where
  "config_ok cfg =
     (0.5 \<le> confidence_threshold (web_search cfg) \<and> confidence_threshold (web_search cfg) \<le> 0.9
      \<and> 0 < learning_rate cfg \<and> learning_rate cfg < 1
      \<and> 1 \<le> min_samples cfg
      \<and> list_all (\<lambda>m. 0 \<le> dict_get (judge_weights cfg) m (1 / 3)) metrics
      \<and> 0 < sum_list (map (\<lambda>m. dict_get (judge_weights cfg) m (1 / 3)) metrics))"

definition well_formed :: "feedback_entry list \<Rightarrow> bool" where
  "well_formed feedback_data = list_all (\<lambda>f. feedback_type f \<noteq> None) feedback_data"

text \<open>The fraction of the entries of a group that carry positive feedback.\<close>

definition positive_fraction :: "feedback_entry list \<Rightarrow> real" where
  "positive_fraction fs =
     real (length (filter (\<lambda>f. feedback_type f = Some ''positive'') fs)) / real (length fs)"

text \<open>The batch of \<open>test_rl_optimizer\<close>.\<close>

definition test_entry :: "string \<Rightarrow> bool \<Rightarrow> real \<Rightarrow> real \<Rightarrow> real \<Rightarrow> real \<Rightarrow> feedback_entry" where
  "test_entry t w c r f cm =
     \<lparr> feedback_type = Some t, web_search_triggered = Some w, confidence = Some c,
       judge_scores = Some [(''relevance'', r), (''factuality'', f), (''completeness'', cm)] \<rparr>"

definition test_batch :: "feedback_entry list" where
  "test_batch =
     [test_entry ''positive'' True 0.5 9 9 8,
      test_entry ''positive'' True 0.6 8 9 7,
      test_entry ''positive'' True 0.55 9 8 8,
      test_entry ''positive'' True 0.6 8 9 9,
      test_entry ''negative'' False 0.8 5 4 5,
      test_entry ''negative'' False 0.75 6 5 4,
      test_entry ''positive'' False 0.85 7 7 6,
      test_entry ''negative'' False 0.8 5 6 5]"


text \<open>A state whose history holds snapshots with the given positive rates.\<close>

definition snapshot :: "real \<Rightarrow> performance_entry" where
  "snapshot r =
     \<lparr> entry_timestamp = ''t'', total_feedback = 5, positive_rate = r,
       avg_confidence = Num 0.5, web_search_usage = 0.5 \<rparr>"

definition with_history :: "real list \<Rightarrow> rl_state" where
  "with_history rates =
     \<lparr> config = (default_config ''t'')\<lparr> performance_history := map snapshot rates \<rparr>,
       config_file = NoFile \<rparr>"

text \<open>The same batch with the first entry lacking its \<open>feedback_type\<close>.\<close>

definition missing_type_batch :: "feedback_entry list" where
  "missing_type_batch =
     (test_entry ''positive'' True 0.5 9 9 8)\<lparr> feedback_type := None \<rparr> # tl test_batch"

text \<open>
  Ten entries judged on relevance only, five positive and five negative, and a state
  loaded from a stored configuration whose learning rate is \<open>0.5\<close>.
\<close>

definition relevance_entry :: "string \<Rightarrow> real \<Rightarrow> feedback_entry" where
  "relevance_entry t r =
     \<lparr> feedback_type = Some t, web_search_triggered = Some False, confidence = Some 0.5,
       judge_scores = Some [(''relevance'', r)] \<rparr>"

definition judged_batch :: "feedback_entry list" where
  "judged_batch =
     [relevance_entry ''positive'' 8, relevance_entry ''positive'' 8, relevance_entry ''positive'' 8,
      relevance_entry ''positive'' 8, relevance_entry ''positive'' 8,
      relevance_entry ''negative'' 4, relevance_entry ''negative'' 4, relevance_entry ''negative'' 4,
      relevance_entry ''negative'' 4, relevance_entry ''negative'' 4]"

definition fast_state :: rl_state where
  "fast_state = load_config ''t0'' (Stored ((default_config ''t0'')\<lparr> learning_rate := 0.5 \<rparr>))"

section \<open>Properties of the fusion\<close>

lemma keys_dict_add:
  "map fst (dict_add acc d c) = (if d \<in> fst ` set acc then map fst acc else map fst acc @ [d])"
  by (induction acc d c rule: dict_add.induct) auto

lemma getv_dict_add:
  "getv (dict_add acc d c) d' = getv acc d' + (if d' = d then c else 0)"
  by (induction acc d c rule: dict_add.induct) (auto simp: getv_def)

lemma set_first_seen: "set (first_seen ds) = set ds"
  by (induction ds) auto

lemma distinct_first_seen: "distinct (first_seen ds)"
  by (induction ds) (auto simp: set_first_seen)

lemma first_seen_append:
  "first_seen (xs @ ys) = first_seen xs @ filter (\<lambda>d. d \<notin> set xs) (first_seen ys)"
proof (induction xs)
  case Nil
  then show ?case by simp
next
  case (Cons x xs)
  have "filter (\<lambda>d'. d' \<noteq> x) (filter (\<lambda>d. d \<notin> set xs) (first_seen ys))
        = filter (\<lambda>d. d \<notin> set (x # xs)) (first_seen ys)"
    by (auto intro: filter_cong)
  with Cons show ?case by simp
qed

lemma add_scores_ok:
  "0 < k + rank \<Longrightarrow> \<exists>acc'. add_scores k rank rs acc = Inr acc'"
proof (induction rs arbitrary: rank acc)
  case Nil
  then show ?case by simp
next
  case (Cons r rs)
  obtain d s where r: "r = (d, s)" by (cases r)
  from Cons.prems have "0 < k + (rank + 1)" by simp
  from Cons.IH[OF this] Cons.prems r show ?case by simp
qed

lemma add_scores_keys:
  "add_scores k rank rs acc = Inr acc' \<Longrightarrow>
   map fst acc' = map fst acc @ filter (\<lambda>d. d \<notin> fst ` set acc) (first_seen (map fst rs))"
proof (induction rs arbitrary: rank acc)
  case Nil
  then show ?case by simp
next
  case (Cons r rs)
  obtain d s where r: "r = (d, s)" by (cases r)
  let ?c = "1 / real_of_int (k + rank)"
  from Cons.prems r have nz: "k + rank \<noteq> 0"
    and rec: "add_scores k (rank + 1) rs (dict_add acc d ?c) = Inr acc'"
    by (auto split: if_splits)
  note ih = Cons.IH[OF rec]
  have keys: "fst ` set (dict_add acc d ?c) = insert d (fst ` set acc)"
    using keys_dict_add[of acc d ?c]
    by (metis (no_types, lifting) Un_insert_right insert_absorb list.set(1) list.set(2) set_append set_map sup_bot.right_neutral)
  show ?case
  proof (cases "d \<in> fst ` set acc")
    case True
    have "filter (\<lambda>x. x \<notin> fst ` set acc) (filter (\<lambda>d'. d' \<noteq> d) (first_seen (map fst rs)))
          = filter (\<lambda>x. x \<notin> fst ` set acc) (first_seen (map fst rs))"
      using True by (auto intro: filter_cong)
    with ih keys True r show ?thesis
      by (simp add: keys_dict_add insert_absorb)
  next
    case False
    have "filter (\<lambda>x. x \<noteq> d \<and> x \<notin> fst ` set acc) (first_seen (map fst rs))
          = filter (\<lambda>x. x \<notin> fst ` set acc) (filter (\<lambda>d'. d' \<noteq> d) (first_seen (map fst rs)))"
      by (auto intro: filter_cong)
    with ih keys False r show ?thesis
      by (simp add: keys_dict_add)
  qed
qed

lemma add_scores_getv:
  "add_scores k rank rs acc = Inr acc' \<Longrightarrow> getv acc' d = getv acc d + contribution k rank rs d"
proof (induction rs arbitrary: rank acc)
  case Nil
  then show ?case by simp
next
  case (Cons r rs)
  obtain d' s where r: "r = (d', s)" by (cases r)
  from Cons.prems r have
    rec: "add_scores k (rank + 1) rs (dict_add acc d' (1 / real_of_int (k + rank))) = Inr acc'"
    by (auto split: if_splits)
  from Cons.IH[OF rec] r show ?case
    by (simp add: getv_dict_add)
qed

lemma distinct_keys_values:
  "distinct (map fst acc) \<Longrightarrow> acc = map (\<lambda>d. (d, getv acc d)) (map fst acc)"
proof (induction acc)
  case Nil
  then show ?case by simp
next
  case (Cons p acc)
  obtain d v where p: "p = (d, v)" by (cases p)
  from Cons.prems p have nd: "d \<notin> fst ` set acc" and dist: "distinct (map fst acc)" by auto
  have "map (\<lambda>x. (x, getv ((d, v) # acc) x)) (map fst acc) = map (\<lambda>x. (x, getv acc x)) (map fst acc)"
    using nd by (auto simp: getv_def)
  with Cons.IH[OF dist] p show ?case by (simp add: getv_def)
qed

lemma rrf_accumulator:
  assumes "add_scores k 1 A [] = Inr acc1" and "add_scores k 1 B acc1 = Inr acc2"
  shows "acc2 = map (\<lambda>d. (d, total_score k A B d)) (first_seen (map fst (A @ B)))"
proof -
  have k1: "map fst acc1 = first_seen (map fst A)"
    using add_scores_keys[OF assms(1)] by simp
  then have s1: "fst ` set acc1 = fst ` set A"
    by (metis set_first_seen set_map)
  have k2: "map fst acc2 = first_seen (map fst (A @ B))"
    using add_scores_keys[OF assms(2)] k1 s1 by (simp add: first_seen_append)
  have v: "getv acc2 d = total_score k A B d" for d
    using add_scores_getv[OF assms(1), of d] add_scores_getv[OF assms(2), of d]
    by (simp add: total_score_def getv_def)
  have "distinct (map fst acc2)" using k2 by (simp add: distinct_first_seen)
  from distinct_keys_values[OF this] k2 v show ?thesis by simp
qed

lemma sorted_reverse_desc: "sorted_wrt (\<lambda>x y. snd y \<le> snd x) (sorted_reverse items)"
proof -
  have "sorted (map (\<lambda>x. - snd x) (sorted_reverse items))"
    unfolding sorted_reverse_def by (rule sorted_sort_key)
  then show ?thesis
    by (simp add: sorted_wrt_map)
qed

lemma sorted_reverse_stable:
  "filter (\<lambda>x. snd x = v) (sorted_reverse items) = filter (\<lambda>x. snd x = v) items"
proof -
  have "filter (\<lambda>x. - snd x = - v) (sort_key (\<lambda>x. - snd x) items) = filter (\<lambda>x. - snd x = - v) items"
    by (rule sort_key_stable)
  then show ?thesis by (simp add: sorted_reverse_def)
qed


text \<open>
  C3 (as the code has it). For list A holding documents 1, 2, 3 and list B holding
  documents 3, 1, 4, with \<open>k = 60\<close> and whatever the input scores, the fusion returns the
  documents in the order 1, 3, 2, 4 with the scores \<open>1/61 + 1/62\<close>, \<open>1/63 + 1/61\<close>,
  \<open>1/62\<close> and \<open>1/63\<close>: document 4 stands at rank 3 of list B, so its score is \<open>1/63\<close>.
\<close>

theorem rrf_example:
  "reciprocal_rank_fusion [(1, a1), (2, a2), (3, a3)] [(3, b1), (1, b2), (4, b3)] 60
     = Inr [(1, 1 / 61 + 1 / 62), (3, 1 / 63 + 1 / 61), (2, 1 / 62), (4, 1 / 63)]"
  by (simp add: reciprocal_rank_fusion_def sorted_reverse_def)

text \<open>
  C3 as stated fails: the result on that input is not the list that gives document 4 the
  score \<open>1/64\<close>.
\<close>

theorem rrf_example_counterexample:
  "reciprocal_rank_fusion [(1, 0.9), (2, 0.8), (3, 0.7)] [(3, 5), (1, 4), (4, 3)] 60
     \<noteq> Inr [(1, 1 / 61 + 1 / 62), (3, 1 / 63 + 1 / 61), (2, 1 / 62), (4, 1 / 64)]"
  by (simp add: reciprocal_rank_fusion_def sorted_reverse_def)

text \<open>
  C8. For a constant \<open>k \<ge> 0\<close> (the caller uses 60) and every pair of input lists the fusion
  returns a result and raises nothing. The result holds each document of the two lists
  once, with the sum of its contributions \<open>1 / (k + rank)\<close> from both lists, sorted by
  descending total; the documents sharing a total come in first-seen order, list A scanned
  before list B. Two empty lists give the empty result.
\<close>

theorem rrf_fuses:
  assumes "0 \<le> k"
  shows "\<exists>out. reciprocal_rank_fusion A B k = Inr out
      \<and> out = sorted_reverse (map (\<lambda>d. (d, total_score k A B d)) (first_seen (map fst (A @ B))))
      \<and> sorted_wrt (\<lambda>x y. snd y \<le> snd x) out
      \<and> (\<forall>v. filter (\<lambda>x. snd x = v) out
              = map (\<lambda>d. (d, v)) (filter (\<lambda>d. total_score k A B d = v) (first_seen (map fst (A @ B)))))
      \<and> reciprocal_rank_fusion [] [] k = Inr []"
proof -
  from assms have pos: "0 < k + 1" by simp
  obtain acc1 where a1: "add_scores k 1 A [] = Inr acc1"
    using add_scores_ok[OF pos] by blast
  obtain acc2 where a2: "add_scores k 1 B acc1 = Inr acc2"
    using add_scores_ok[OF pos] by blast
  let ?acc = "map (\<lambda>d. (d, total_score k A B d)) (first_seen (map fst (A @ B)))"
  have acc: "acc2 = ?acc" by (rule rrf_accumulator[OF a1 a2])
  have out: "reciprocal_rank_fusion A B k = Inr (sorted_reverse ?acc)"
    using a1 a2 acc by (simp add: reciprocal_rank_fusion_def)
  have ties: "filter (\<lambda>x. snd x = v) (sorted_reverse ?acc)
      = map (\<lambda>d. (d, v)) (filter (\<lambda>d. total_score k A B d = v) (first_seen (map fst (A @ B))))" for v
    unfolding sorted_reverse_stable
    by (induction "first_seen (map fst (A @ B))") (auto simp: filter_map comp_def)
  have empty: "reciprocal_rank_fusion [] [] k = Inr []"
    by (simp add: reciprocal_rank_fusion_def sorted_reverse_def)
  from out sorted_reverse_desc ties empty show ?thesis by blast
qed

text \<open>C8 at two short lists that share a document and have a tie.\<close>

theorem rrf_fuses_witness:
  "(0::int) \<le> 60 \<and> reciprocal_rank_fusion [(7, 0.9), (8, 0.5)] [(9, 3), (8, 2)] 60
     = Inr [(8, 1 / 62 + 1 / 62), (7, 1 / 61), (9, 1 / 61)]"
  using rrf_fuses[of 60 "[(7, 0.9), (8, 0.5)]" "[(9, 3), (8, 2)]"]
  by (simp add: total_score_def sorted_reverse_def)




section \<open>Properties of the configuration store\<close>

text \<open>
  C10. On a first start with no persisted file the defaults go through the save path, which
  increments the version of the dict it is given before writing: the file and the
  configuration in memory both start at version 2, the default being 1.
\<close>

theorem first_start_version:
  "version (default_config now) = 1
   \<and> version (config (load_config now NoFile)) = 2
   \<and> config_file (load_config now NoFile) = Stored (config (load_config now NoFile))
   \<and> config (load_config now NoFile) = (default_config now)\<lparr> version := 2 \<rparr>"
  by (simp add: load_config_def save_config_def default_config_def Let_def)

text \<open>
  C6. For every value \<open>X\<close> and every starting configuration, two successive calls of
  \<open>update({"web_search": X})\<close> advance the version by exactly 2 (each call by 1) and leave
  \<open>web_search\<close> equal to \<open>X\<close>; the file holds the final configuration.
\<close>

theorem update_twice:
  "version (config (update t2 [Web_search X] (update t1 [Web_search X] s))) = version (config s) + 2
   \<and> web_search (config (update t2 [Web_search X] (update t1 [Web_search X] s))) = X
   \<and> web_search (config (update t1 [Web_search X] s)) = X
   \<and> version (config (update t1 [Web_search X] s)) = version (config s) + 1
   \<and> config_file (update t2 [Web_search X] (update t1 [Web_search X] s))
       = Stored (config (update t2 [Web_search X] (update t1 [Web_search X] s)))"
  by (simp add: update_def save_config_def Let_def)

section \<open>Properties of the optimizer\<close>

text \<open>
  C7. For all scores (those in \<open>[0, 10]\<close> among them) and all weights held by the
  configuration, the weighted confidence lies in \<open>[0, 1]\<close>.
\<close>

theorem confidence_bounded:
  "0 \<le> calculate_weighted_confidence s retrieval_score answer_score
   \<and> calculate_weighted_confidence s retrieval_score answer_score \<le> 1"
  by (simp add: calculate_weighted_confidence_def Let_def)

lemma slice_from_half:
  "2 \<le> length xs \<Longrightarrow> slice_from xs ((- int (length xs)) div 2) = drop (length xs div 2) xs"
proof -
  assume n: "2 \<le> length xs"
  have "nat (max 0 (int (length xs) + (- int (length xs)) div 2)) = length xs div 2"
    by linarith
  moreover have "(- int (length xs)) div 2 < 0" using n by linarith
  ultimately show ?thesis by (simp add: slice_from_def)
qed

lemma slice_from_last5:
  "5 \<le> length xs \<Longrightarrow> slice_from xs (-5) = drop (length xs - 5) xs"
proof -
  assume n: "5 \<le> length xs"
  then have "nat (max 0 (int (length xs) + (-5))) = length xs - 5" by linarith
  then show ?thesis by (simp add: slice_from_def)
qed

lemma slice_to_half: "slice_to xs (int (length xs) div 2) = take (length xs div 2) xs"
proof -
  have "nat (int (length xs) div 2) = length xs div 2" by linarith
  moreover have "\<not> int (length xs) div 2 < 0" by linarith
  ultimately show ?thesis by (simp add: slice_to_def)
qed

lemma slice_to_5: "slice_to xs 5 = take 5 xs"
  by (simp add: slice_to_def)

lemma fl_literal_002: "fl (1 / 50) = Finite literal_002"
  by (simp add: fl_def fl_pos_def exponent_def exp_down.simps pow2_def round_even_def
      max_finite_def literal_002_def Let_def)

text \<open>
  C5 (as the code has it). For a history of \<open>n \<ge> 2\<close> snapshots, \<open>recent\<close> is the last 5
  snapshots when \<open>n \<ge> 5\<close> and the last \<open>n - n div 2\<close> otherwise; \<open>older\<close> is the first 5 when
  \<open>n \<ge> 10\<close> and the first \<open>n div 2\<close> otherwise; both are non-empty. The improvement is the
  double-precision difference of the two means (whatever \<open>np.mean\<close> returns on the two
  windows), and the label is decided on that double against the double \<open>0.02\<close>:
  improving above it, declining at or below its negative (and when the improvement is
  NaN), stable in between.
\<close>

theorem trend_windows:
  assumes "2 \<le> length (performance_history (config s))"
  shows "let h = performance_history (config s); n = length h;
             recent = (if 5 \<le> n then drop (n - 5) h else drop (n div 2) h);
             older = (if 10 \<le> n then take 5 h else take (n div 2) h);
             recent_rate = mean (map (\<lambda>h. fl (positive_rate h)) recent);
             older_rate = mean (map (\<lambda>h. fl (positive_rate h)) older);
             improvement = f_sub recent_rate older_rate
         in recent \<noteq> [] \<and> older \<noteq> []
            \<and> get_performance_trend mean s =
                Trend_success recent_rate older_rate improvement
                  (case improvement of
                     Finite d \<Rightarrow> if d > literal_002 then ''improving''
                                 else if d \<le> - literal_002 then ''declining'' else ''stable''
                   | PosInf \<Rightarrow> ''improving''
                   | NegInf \<Rightarrow> ''declining''
                   | NaN64 \<Rightarrow> ''declining'') n"
proof -
  let ?h = "performance_history (config s)"
  let ?n = "length ?h"
  let ?recent = "if 5 \<le> ?n then drop (?n - 5) ?h else drop (?n div 2) ?h"
  let ?older = "if 10 \<le> ?n then take 5 ?h else take (?n div 2) ?h"
  let ?imp = "f_sub (mean (map (\<lambda>h. fl (positive_rate h)) ?recent))
                    (mean (map (\<lambda>h. fl (positive_rate h)) ?older))"
  have r: "(if ?n \<ge> 5 then slice_from ?h (-5) else slice_from ?h ((- int ?n) div 2)) = ?recent"
    using assms by (simp add: slice_from_half slice_from_last5)
  have o: "(if ?n \<ge> 10 then slice_to ?h 5 else slice_to ?h (int ?n div 2)) = ?older"
    by (simp add: slice_to_half slice_to_5)
  have rne: "?recent \<noteq> []" using assms by auto
  have one: "?older \<noteq> []" using assms by auto
  have label: "(if f_gt ?imp literal_002 then ''improving''
                else if f_gt ?imp (- literal_002) then ''stable'' else ''declining'')
             = (case ?imp of
                  Finite d \<Rightarrow> if d > literal_002 then ''improving''
                              else if d \<le> - literal_002 then ''declining'' else ''stable''
                | PosInf \<Rightarrow> ''improving''
                | NegInf \<Rightarrow> ''declining''
                | NaN64 \<Rightarrow> ''declining'')"
    by (cases ?imp) (auto simp: literal_002_def)
  have "get_performance_trend mean s =
      Trend_success (mean (map (\<lambda>h. fl (positive_rate h)) ?recent))
        (mean (map (\<lambda>h. fl (positive_rate h)) ?older)) ?imp
        (if f_gt ?imp literal_002 then ''improving''
         else if f_gt ?imp (- literal_002) then ''stable'' else ''declining'') ?n"
    unfolding get_performance_trend_def Let_def r o using assms by simp
  with rne one show ?thesis
    unfolding Let_def label by simp
qed

lemmas fl_eval =
  fl_def fl_pos_def exponent_def exp_down.simps exp_up.simps pow2_def round_even_def
  max_finite_def literal_002_def exact_sum_mean_def

text \<open>
  C5 on two histories of two snapshots. The rates \<open>1/2\<close> and \<open>13/25\<close> give the doubles
  \<open>0.5\<close> and \<open>0.52\<close>, whose difference \<open>0.020000000000000018\<close> is above the double
  \<open>0.02\<close>: improving. The rates \<open>3/25\<close> and \<open>1/10\<close> give \<open>-0.01999999999999999\<close>, above the
  double \<open>-0.02\<close>: stable.
\<close>

theorem trend_windows_witness:
  "2 \<le> length (performance_history (config (with_history [1 / 2, 13 / 25])))
   \<and> get_performance_trend exact_sum_mean (with_history [1 / 2, 13 / 25])
      = Trend_success (Finite (1170935903116329 / 2251799813685248)) (Finite (1 / 2))
          (Finite (45035996273705 / 2251799813685248)) ''improving'' 2
   \<and> 2 \<le> length (performance_history (config (with_history [3 / 25, 1 / 10])))
   \<and> get_performance_trend exact_sum_mean (with_history [3 / 25, 1 / 10])
      = Trend_success (Finite (3602879701896397 / 36028797018963968))
          (Finite (1080863910568919 / 9007199254740992))
          (Finite (- (720575940379279 / 36028797018963968))) ''stable'' 2"
  using trend_windows[of "with_history [1 / 2, 13 / 25]" exact_sum_mean]
    trend_windows[of "with_history [3 / 25, 1 / 10]" exact_sum_mean]
  by (simp add: with_history_def snapshot_def default_config_def Let_def fl_eval)

text \<open>
  C5 as stated fails, on rates for which every operation is exact: with six snapshots and
  with three the code's recent window is larger than \<open>min(5, n div 2)\<close>, and an improvement
  equal to the double \<open>-0.02\<close> is classified as declining.
\<close>

theorem trend_counterexample:
  "get_performance_trend exact_sum_mean (with_history [1 / 2, 1 / 2, 1 / 2, 1, 1, 3 / 4])
     = Trend_success (Finite (3 / 4)) (Finite (1 / 2)) (Finite (1 / 4)) ''improving'' 6
   \<and> get_performance_trend exact_sum_mean (with_history [1 / 2, 1 / 2, 1 / 2, 1, 1, 3 / 4])
     \<noteq> spec_trend exact_sum_mean
          (performance_history (config (with_history [1 / 2, 1 / 2, 1 / 2, 1, 1, 3 / 4])))
   \<and> get_performance_trend exact_sum_mean (with_history [1 / 4, 1 / 2, 1])
     = Trend_success (Finite (3 / 4)) (Finite (1 / 4)) (Finite (1 / 2)) ''improving'' 3
   \<and> get_performance_trend exact_sum_mean (with_history [1 / 4, 1 / 2, 1])
     \<noteq> spec_trend exact_sum_mean (performance_history (config (with_history [1 / 4, 1 / 2, 1])))
   \<and> get_performance_trend exact_sum_mean (with_history [1 / 50, 0])
     = Trend_success (Finite 0) (Finite literal_002) (Finite (- literal_002)) ''declining'' 2
   \<and> spec_trend exact_sum_mean (performance_history (config (with_history [1 / 50, 0])))
     = Trend_success (Finite 0) (Finite literal_002) (Finite (- literal_002)) ''stable'' 2"
  by (simp add: get_performance_trend_def spec_trend_def with_history_def snapshot_def
      default_config_def slice_from_def slice_to_def Let_def fl_eval)

subsection \<open>Steps of one optimizer run\<close>


lemma update_single:
  "config (update now [u] s) = (apply_update u (config s))\<lparr> last_updated := now, version := version (config s) + 1 \<rparr>"
  "config_file (update now [u] s) = Stored (config (update now [u] s))"
  by (cases u; simp add: update_def save_config_def Let_def)+

lemma update_version: "version (config (update now [u] s)) = version (config s) + 1"
  by (cases u) (simp_all add: update_single)

lemma count_positive_well_formed:
  "list_all (\<lambda>f. feedback_type f \<noteq> None) fs \<Longrightarrow>
   count_positive fs = Inr (length (filter (\<lambda>f. feedback_type f = Some ''positive'') fs))"
  by (induction fs) auto

lemma count_positive_le: "count_positive fs = Inr n \<Longrightarrow> n \<le> length fs"
  by (induction fs arbitrary: n) (auto split: option.splits sum.splits if_splits)

lemma count_positive_error: "count_positive fs = Inl e \<Longrightarrow> e = KeyError"
  by (induction fs) (auto split: option.splits sum.splits)

lemma collect_scores_well_formed:
  "list_all (\<lambda>f. feedback_type f \<noteq> None) fs \<Longrightarrow> \<exists>r. collect_scores metric fs = Inr r"
  by (induction fs) (auto split: option.splits)

lemma correlations_of_well_formed:
  "list_all (\<lambda>f. feedback_type f \<noteq> None) fs \<Longrightarrow> \<exists>r. correlations_of ms fs = Inr r"
proof (induction ms)
  case Nil
  then show ?case by simp
next
  case (Cons m ms)
  from collect_scores_well_formed[OF Cons.prems, of m] obtain sc where "collect_scores m fs = Inr sc" by blast
  moreover from Cons.IH[OF Cons.prems] obtain r where "correlations_of ms fs = Inr r" by blast
  ultimately show ?case by (simp add: Let_def)
qed

text \<open>Each analysis either leaves the state alone or applies one update.\<close>

lemma web_step:
  assumes "analyze_web_search_performance now fb s = Inr (a, s')"
  shows "(a = None \<and> s' = s) \<or>
         (\<exists>new. a = Some (Threshold_adjustment (confidence_threshold (web_search (config s))) new)
            \<and> s' = update now [Web_search ((web_search (config s))\<lparr> confidence_threshold := new \<rparr>)] s)"
  using assms unfolding analyze_web_search_performance_def Let_def
  by (auto split: if_splits sum.splits)

lemma calibration_step:
  assumes "analyze_confidence_calibration now fb s = Inr (a, s')"
  shows "(a = None \<and> s' = s) \<or>
         (\<exists>new. a = Some (Confidence_weights_adjustment (confidence_weights (config s)) new)
            \<and> s' = update now [Confidence_weights new] s)"
  using assms unfolding analyze_confidence_calibration_def Let_def
  by (auto split: if_splits sum.splits)

lemma judge_step:
  assumes "analyze_judge_correlation now fb s = Inr (a, s')"
  shows "(a = None \<and> s' = s) \<or>
         (\<exists>new corr. a = Some (Judge_weights_adjustment (judge_weights (config s)) new corr)
            \<and> s' = update now [Judge_weights new] s)"
  using assms unfolding analyze_judge_correlation_def Let_def
  by (auto split: if_splits sum.splits option.splits)


lemma clamp_down:
  fixes c d :: real
  assumes "1 / 2 \<le> c" "c \<le> 9 / 10" "0 \<le> d"
  shows "1 / 2 \<le> max (1 / 2) (c - d) \<and> max (1 / 2) (c - d) \<le> 9 / 10"
  using assms unfolding max_def by auto

lemma clamp_up:
  fixes c d :: real
  assumes "1 / 2 \<le> c" "c \<le> 9 / 10" "0 \<le> d"
  shows "1 / 2 \<le> min (9 / 10) (c + d) \<and> min (9 / 10) (c + d) \<le> 9 / 10"
  using assms unfolding min_def by auto

lemma threshold_down:
  fixes c lr w i :: real
  assumes "1 / 2 \<le> c" "c \<le> 9 / 10" "0 < lr" "3 / 20 < w - i"
  shows "1 / 2 \<le> max (1 / 2) (c - (w - i) * lr) \<and> max (1 / 2) (c - (w - i) * lr) \<le> 9 / 10"
proof -
  have "0 \<le> (w - i) * lr" using assms by (intro mult_nonneg_nonneg) auto
  from clamp_down[OF assms(1,2) this] show ?thesis .
qed

lemma threshold_up:
  fixes c lr w i :: real
  assumes "1 / 2 \<le> c" "c \<le> 9 / 10" "0 < lr" "3 / 20 < i - w"
  shows "1 / 2 \<le> min (9 / 10) (c + (i - w) * lr) \<and> min (9 / 10) (c + (i - w) * lr) \<le> 9 / 10"
proof -
  have "0 \<le> (i - w) * lr" using assms by (intro mult_nonneg_nonneg) auto
  from clamp_up[OF assms(1,2) this] show ?thesis .
qed

lemma count_positive_Inr:
  "count_positive fs = Inr n \<Longrightarrow> n = length (filter (\<lambda>f. feedback_type f = Some ''positive'') fs)"
  by (induction fs arbitrary: n) (auto split: option.splits sum.splits if_splits)



lemma web_formula:
  assumes "analyze_web_search_performance now fb s = Inr (Some adj, s')"
  shows "let web_rate = positive_fraction (filter triggered fb);
             internal_rate = positive_fraction (filter (\<lambda>f. \<not> triggered f) fb);
             current = confidence_threshold (web_search (config s));
             lr = learning_rate (config s);
             new = (if web_rate > internal_rate + 0.15
                    then max 0.5 (current - (web_rate - internal_rate) * lr)
                    else min 0.9 (current + (internal_rate - web_rate) * lr))
         in (web_rate > internal_rate + 0.15 \<or> internal_rate > web_rate + 0.15)
            \<and> adj = Threshold_adjustment current new
            \<and> s' = update now [Web_search ((web_search (config s))\<lparr> confidence_threshold := new \<rparr>)] s"
proof -
  let ?web = "filter triggered fb"
  let ?int = "filter (\<lambda>f. \<not> triggered f) fb"
  from assms have guard: "\<not> (length ?web < 3 \<or> length ?int < 3)"
    unfolding analyze_web_search_performance_def Let_def by (auto split: if_splits)
  from assms guard obtain wp where wp: "count_positive ?web = Inr wp"
    unfolding analyze_web_search_performance_def Let_def by (cases "count_positive ?web") auto
  from assms guard wp obtain ip where ip: "count_positive ?int = Inr ip"
    unfolding analyze_web_search_performance_def Let_def by (cases "count_positive ?int") auto
  have w: "real wp / real (length ?web) = positive_fraction ?web"
    using count_positive_Inr[OF wp] by (simp add: positive_fraction_def)
  have i: "real ip / real (length ?int) = positive_fraction ?int"
    using count_positive_Inr[OF ip] by (simp add: positive_fraction_def)
  from assms guard show ?thesis
    unfolding analyze_web_search_performance_def Let_def
    by (simp only: wp ip w i sum.case if_False split: if_splits) auto
qed



lemma config_ok_update:
  assumes "config_ok (config s)"
    and "\<And>w. u = Web_search w \<Longrightarrow> 1 / 2 \<le> confidence_threshold w \<and> confidence_threshold w \<le> 9 / 10"
    and "\<And>jw. u = Judge_weights jw \<Longrightarrow>
           list_all (\<lambda>m. 0 \<le> dict_get jw m (1 / 3)) metrics
           \<and> 0 < sum_list (map (\<lambda>m. dict_get jw m (1 / 3)) metrics)"
  shows "config_ok (config (update now [u] s))"
  using assms by (cases u) (simp_all add: config_ok_def update_single)

lemma web_config_ok:
  assumes "analyze_web_search_performance now fb s = Inr (a, s')" and "config_ok (config s)"
  shows "config_ok (config s')"
proof (cases a)
  case None
  with web_step[OF assms(1)] assms(2) show ?thesis by auto
next
  case (Some adj)
  define w where "w = positive_fraction (filter triggered fb)"
  define i where "i = positive_fraction (filter (\<lambda>f. \<not> triggered f) fb)"
  define c where "c = confidence_threshold (web_search (config s))"
  define lr where "lr = learning_rate (config s)"
  define new where "new = (if w > i + 0.15 then max 0.5 (c - (w - i) * lr) else min 0.9 (c + (i - w) * lr))"
  from web_formula[OF assms(1)[unfolded Some]]
  have br: "w > i + 0.15 \<or> i > w + 0.15"
    and s': "s' = update now [Web_search ((web_search (config s))\<lparr> confidence_threshold := new \<rparr>)] s"
    unfolding Let_def w_def i_def c_def lr_def new_def by blast+
  from assms(2) have c: "1 / 2 \<le> c" "c \<le> 9 / 10" and lr: "0 < lr"
    by (simp_all add: config_ok_def c_def lr_def)
  have new: "1 / 2 \<le> new \<and> new \<le> 9 / 10"
  proof (cases "w > i + 0.15")
    case True
    then have "3 / 20 < w - i" by simp
    from threshold_down[OF c lr this] True show ?thesis by (simp add: new_def)
  next
    case False
    with br have "3 / 20 < i - w" by simp
    from threshold_up[OF c lr this] False show ?thesis by (simp add: new_def)
  qed
  show ?thesis unfolding s'
    by (rule config_ok_update[OF assms(2)]) (use new in auto)
qed

lemma calibration_config_ok:
  assumes "analyze_confidence_calibration now fb s = Inr (a, s')" and "config_ok (config s)"
  shows "config_ok (config s')"
proof -
  from calibration_step[OF assms(1)] consider "s' = s"
    | new where "s' = update now [Confidence_weights new] s" by blast
  then show ?thesis
  proof cases
    case 1
    with assms(2) show ?thesis by simp
  next
    case 2
    show ?thesis unfolding 2 by (rule config_ok_update[OF assms(2)]) auto
  qed
qed

lemma slice_from_last50:
  "length h > 50 \<Longrightarrow> slice_from h (-50) = drop (length h - 50) h"
proof -
  assume "length h > 50"
  then have "nat (max 0 (int (length h) + (-50))) = length h - 50" by linarith
  then show ?thesis by (simp add: slice_from_def)
qed

lemma record_step:
  assumes "record_performance now fb s = Inr s'" and "fb \<noteq> []"
  shows "\<exists>p. count_positive fb = Inr p \<and>
          s' = update now [Performance_history
                 (let history = performance_history (config s) @ [performance_entry_of now fb p]
                  in if length history > 50 then drop (length history - 50) history else history)] s"
proof -
  from assms obtain p where p: "count_positive fb = Inr p"
    unfolding record_performance_def by (cases "count_positive fb") auto
  let ?h = "performance_history (config s) @ [performance_entry_of now fb p]"
  have "(if length ?h > 50 then slice_from ?h (-50) else ?h)
        = (if length ?h > 50 then drop (length ?h - 50) ?h else ?h)"
    using slice_from_last50[of ?h] by presburger
  with assms p show ?thesis
    unfolding record_performance_def Let_def by simp
qed

lemma record_config_ok:
  assumes "record_performance now fb s = Inr s'" and "config_ok (config s)"
  shows "config_ok (config s')"
proof (cases "fb = []")
  case True
  with assms show ?thesis by (simp add: record_performance_def)
next
  case False
  from record_step[OF assms(1) False] obtain h where "s' = update now [Performance_history h] s"
    by blast
  then show ?thesis using config_ok_update[OF assms(2), of "Performance_history h" now] by simp
qed



lemma dict_get_nonneg:
  "list_all (\<lambda>p. 0 \<le> snd p) d \<Longrightarrow> 0 \<le> dflt \<Longrightarrow> 0 \<le> dict_get d k dflt"
  by (induction d) (auto simp: dict_get_def)

lemma target_nonneg:
  assumes "0 < total_corr_of corr"
  shows "list_all (\<lambda>p. 0 \<le> snd p) (target_weights_of corr)"
  using assms unfolding target_weights_of_def
  by (simp add: list_all_iff split_beta)

lemma blend_bounds:
  assumes "0 \<le> dict_get cur m (1 / 3)" "list_all (\<lambda>p. 0 \<le> snd p) tgt" "0 < lr" "lr < 1"
  shows "dict_get cur m (1 / 3) * (1 - lr) \<le> blend cur tgt lr m"
    and "0 \<le> blend cur tgt lr m"
proof -
  have t: "0 \<le> dict_get tgt m (1 / 3)" using assms(2) by (rule dict_get_nonneg) simp
  have "0 \<le> dict_get tgt m (1 / 3) * lr" using t assms(3) by (intro mult_nonneg_nonneg) auto
  then show 1: "dict_get cur m (1 / 3) * (1 - lr) \<le> blend cur tgt lr m"
    by (simp add: blend_def Let_def)
  have "0 \<le> dict_get cur m (1 / 3) * (1 - lr)"
    using assms(1,4) by (intro mult_nonneg_nonneg) auto
  with 1 show "0 \<le> blend cur tgt lr m" by linarith
qed

lemma blend_total_eq:
  "blend_total cur tgt lr =
     blend cur tgt lr ''relevance'' + blend cur tgt lr ''factuality'' + blend cur tgt lr ''completeness''"
  by (simp add: blend_total_def blended_weights_def metrics_def)

lemma blend_total_pos:
  assumes ok: "config_ok cfg" and tgt: "list_all (\<lambda>p. 0 \<le> snd p) tgt"
  shows "0 < blend_total (judge_weights cfg) tgt (learning_rate cfg * 0.5)"
proof -
  let ?cur = "judge_weights cfg"
  let ?lr = "learning_rate cfg * 0.5"
  let ?a = "\<lambda>m. dict_get ?cur m (1 / 3)"
  from ok have lr: "0 < ?lr" "?lr < 1" by (simp_all add: config_ok_def)
  from ok have a: "0 \<le> ?a ''relevance''" "0 \<le> ?a ''factuality''" "0 \<le> ?a ''completeness''"
    and sum: "0 < ?a ''relevance'' + ?a ''factuality'' + ?a ''completeness''"
    by (simp_all add: config_ok_def metrics_def)
  note b1 = blend_bounds(1)[OF a(1) tgt lr]
  note b2 = blend_bounds(1)[OF a(2) tgt lr]
  note b3 = blend_bounds(1)[OF a(3) tgt lr]
  have "0 < (?a ''relevance'' + ?a ''factuality'' + ?a ''completeness'') * (1 - ?lr)"
    using sum lr by (intro mult_pos_pos) auto
  also have "\<dots> = ?a ''relevance'' * (1 - ?lr) + ?a ''factuality'' * (1 - ?lr) + ?a ''completeness'' * (1 - ?lr)"
    by (simp add: algebra_simps)
  also have "\<dots> \<le> blend_total ?cur tgt ?lr"
    unfolding blend_total_eq using b1 b2 b3 by linarith
  finally show ?thesis .
qed

lemma dict_get_renormalized:
  "m \<in> set metrics \<Longrightarrow>
   dict_get (renormalized cur tgt lr) m dflt = blend cur tgt lr m / blend_total cur tgt lr"
  by (auto simp: renormalized_def blended_weights_def metrics_def dict_get_def)

lemma renormalized_sum:
  assumes "blend_total cur tgt lr \<noteq> 0"
  shows "dict_get (renormalized cur tgt lr) ''relevance'' dflt
         + dict_get (renormalized cur tgt lr) ''factuality'' dflt
         + dict_get (renormalized cur tgt lr) ''completeness'' dflt = 1"
proof -
  define T where "T = blend_total cur tgt lr"
  have "blend cur tgt lr ''relevance'' / T + blend cur tgt lr ''factuality'' / T
        + blend cur tgt lr ''completeness'' / T
        = (blend cur tgt lr ''relevance'' + blend cur tgt lr ''factuality''
           + blend cur tgt lr ''completeness'') / T"
    by (simp add: add_divide_distrib)
  also have "\<dots> = T / T" by (simp only: T_def blend_total_eq)
  also have "\<dots> = 1" using assms by (simp add: T_def)
  finally have "blend cur tgt lr ''relevance'' / T + blend cur tgt lr ''factuality'' / T
        + blend cur tgt lr ''completeness'' / T = 1" .
  moreover have "''relevance'' \<in> set metrics" "''factuality'' \<in> set metrics" "''completeness'' \<in> set metrics"
    by (simp_all add: metrics_def)
  ultimately show ?thesis
    by (simp only: dict_get_renormalized T_def)
qed

lemma renormalized_ok:
  assumes ok: "config_ok cfg" and tgt: "list_all (\<lambda>p. 0 \<le> snd p) tgt"
  shows "list_all (\<lambda>m. 0 \<le> dict_get (renormalized (judge_weights cfg) tgt (learning_rate cfg * 0.5)) m (1 / 3)) metrics
         \<and> 0 < sum_list (map (\<lambda>m. dict_get (renormalized (judge_weights cfg) tgt (learning_rate cfg * 0.5)) m (1 / 3)) metrics)"
proof -
  let ?cur = "judge_weights cfg"
  let ?lr = "learning_rate cfg * 0.5"
  from ok have lr: "0 < ?lr" "?lr < 1" by (simp_all add: config_ok_def)
  from ok have a: "\<And>m. m \<in> set metrics \<Longrightarrow> 0 \<le> dict_get ?cur m (1 / 3)"
    by (simp add: config_ok_def list_all_iff)
  have pos: "0 < blend_total ?cur tgt ?lr" by (rule blend_total_pos[OF ok tgt])
  have nn: "0 \<le> dict_get (renormalized ?cur tgt ?lr) m (1 / 3)" if "m \<in> set metrics" for m
  proof -
    have "0 \<le> blend ?cur tgt ?lr m" by (rule blend_bounds(2)[OF a[OF that] tgt lr])
    with pos show ?thesis by (simp add: dict_get_renormalized[OF that])
  qed
  have "sum_list (map (\<lambda>m. dict_get (renormalized ?cur tgt ?lr) m (1 / 3)) metrics) = 1"
    using renormalized_sum[of ?cur tgt ?lr "1 / 3"] pos by (simp add: metrics_def)
  with nn show ?thesis by (simp add: list_all_iff)
qed

lemma judge_config_ok:
  assumes "analyze_judge_correlation now fb s = Inr (a, s')" and ok: "config_ok (config s)"
  shows "config_ok (config s')"
proof -
  from assms(1) consider "s' = s"
    | corr where "0 < total_corr_of corr"
        "s' = update now [Judge_weights (renormalized (judge_weights (config s)) (target_weights_of corr)
                 (learning_rate (config s) * 0.5))] s"
    unfolding analyze_judge_correlation_def Let_def
    by (auto split: if_splits sum.splits option.splits)
  then show ?thesis
  proof cases
    case 1
    with ok show ?thesis by simp
  next
    case 2
    show ?thesis unfolding 2(2)
      by (rule config_ok_update[OF ok]) (use renormalized_ok[OF ok target_nonneg[OF 2(1)]] in auto)
  qed
qed

lemma judge_succeeds:
  assumes "config_ok (config s)" and "list_all (\<lambda>f. feedback_type f \<noteq> None) fb"
  shows "\<exists>a s'. analyze_judge_correlation now fb s = Inr (a, s')"
proof -
  from correlations_of_well_formed[OF assms(2)] obtain c where c: "correlations_of metrics fb = Inr c"
    by blast
  have "blend_total (judge_weights (config s)) (target_weights_of corr) (learning_rate (config s) * 0.5) \<noteq> 0"
    if "0 < total_corr_of corr" for corr
    using blend_total_pos[OF assms(1) target_nonneg[OF that]] by simp
  then show ?thesis
    unfolding analyze_judge_correlation_def Let_def by (auto simp: c split: option.splits)
qed


subsection \<open>The invariant of a run\<close>

lemma default_config_ok: "config_ok (default_config now)"
  by (simp add: config_ok_def default_config_def metrics_def dict_get_def)

lemma load_default_ok:
  "config_ok (config (load_config now NoFile))" "config_ok (config (load_config now Unreadable))"
  using default_config_ok[of now]
  by (simp_all add: load_config_def save_config_def Let_def config_ok_def)

lemma run_config_ok:
  assumes "config_ok (config s)"
  shows "config_ok (config (snd (update_from_feedback now fb s)))"
proof (cases "int (length fb) < min_samples (config s)")
  case True
  with assms show ?thesis by (simp add: update_from_feedback_def)
next
  case False
  note ge = False
  show ?thesis
  proof (cases "analyze_web_search_performance now fb s")
    case (Inl e)
    with ge assms show ?thesis by (simp add: update_from_feedback_def)
  next
    case (Inr r1)
    obtain a1 s1 where r1: "r1 = (a1, s1)" by (cases r1)
    note w = Inr[unfolded r1]
    have ok1: "config_ok (config s1)" by (rule web_config_ok[OF w assms])
    show ?thesis
    proof (cases "analyze_confidence_calibration now fb s1")
      case (Inl e)
      with ge w ok1 show ?thesis by (simp add: update_from_feedback_def)
    next
      case (Inr r2)
      obtain a2 s2 where r2: "r2 = (a2, s2)" by (cases r2)
      note c = Inr[unfolded r2]
      have ok2: "config_ok (config s2)" by (rule calibration_config_ok[OF c ok1])
      show ?thesis
      proof (cases "analyze_judge_correlation now fb s2")
        case (Inl e)
        with ge w c ok2 show ?thesis by (simp add: update_from_feedback_def)
      next
        case (Inr r3)
        obtain a3 s3 where r3: "r3 = (a3, s3)" by (cases r3)
        note j = Inr[unfolded r3]
        have ok3: "config_ok (config s3)" by (rule judge_config_ok[OF j ok2])
        show ?thesis
        proof (cases "record_performance now fb s3")
          case (Inl e)
          with ge w c j ok3 show ?thesis by (simp add: update_from_feedback_def)
        next
          case (Inr s4)
          have "config_ok (config s4)" by (rule record_config_ok[OF Inr ok3])
          with ge w c j Inr show ?thesis by (simp add: update_from_feedback_def)
        qed
      qed
    qed
  qed
qed

lemma runs_config_ok: "config_ok (config s) \<Longrightarrow> config_ok (config (runs batches s))"
proof (induction batches arbitrary: s)
  case Nil
  then show ?case by simp
next
  case (Cons b batches)
  obtain now fb where b: "b = (now, fb)" by (cases b)
  from Cons.IH[OF run_config_ok[OF Cons.prems, of now fb]] b show ?case by simp
qed

text \<open>
  C1. Starting from the default configuration (no file, or an unreadable one), after every
  sequence of optimizer runs on arbitrary batches the confidence threshold lies in
  \<open>[0.5, 0.9]\<close>. Whenever the web-search analysis adjusts, one of the two rates exceeds the
  other by more than \<open>0.15\<close>, and the threshold written is
  \<open>max(0.5, current - (web_rate - internal_rate) * learning_rate)\<close> when the web rate is the
  higher one and \<open>min(0.9, current + (internal_rate - web_rate) * learning_rate)\<close> otherwise.
\<close>

theorem threshold_invariant:
  "0.5 \<le> confidence_threshold (web_search (config (runs batches (load_config now NoFile))))
   \<and> confidence_threshold (web_search (config (runs batches (load_config now NoFile)))) \<le> 0.9
   \<and> 0.5 \<le> confidence_threshold (web_search (config (runs batches (load_config now Unreadable))))
   \<and> confidence_threshold (web_search (config (runs batches (load_config now Unreadable)))) \<le> 0.9
   \<and> (analyze_web_search_performance t fb s = Inr (Some adj, s') \<longrightarrow>
        (let web_rate = positive_fraction (filter triggered fb);
             internal_rate = positive_fraction (filter (\<lambda>f. \<not> triggered f) fb);
             current = confidence_threshold (web_search (config s));
             lr = learning_rate (config s);
             new = (if web_rate > internal_rate + 0.15
                    then max 0.5 (current - (web_rate - internal_rate) * lr)
                    else min 0.9 (current + (internal_rate - web_rate) * lr))
         in (web_rate > internal_rate + 0.15 \<or> internal_rate > web_rate + 0.15)
            \<and> adj = Threshold_adjustment current new
            \<and> confidence_threshold (web_search (config s')) = new))"
proof -
  have a: "config_ok (config (runs batches (load_config now NoFile)))"
    by (rule runs_config_ok[OF load_default_ok(1)])
  have b: "config_ok (config (runs batches (load_config now Unreadable)))"
    by (rule runs_config_ok[OF load_default_ok(2)])
  have c: "analyze_web_search_performance t fb s = Inr (Some adj, s') \<longrightarrow>
        (let web_rate = positive_fraction (filter triggered fb);
             internal_rate = positive_fraction (filter (\<lambda>f. \<not> triggered f) fb);
             current = confidence_threshold (web_search (config s));
             lr = learning_rate (config s);
             new = (if web_rate > internal_rate + 0.15
                    then max 0.5 (current - (web_rate - internal_rate) * lr)
                    else min 0.9 (current + (internal_rate - web_rate) * lr))
         in (web_rate > internal_rate + 0.15 \<or> internal_rate > web_rate + 0.15)
            \<and> adj = Threshold_adjustment current new
            \<and> confidence_threshold (web_search (config s')) = new)"
  proof
    assume "analyze_web_search_performance t fb s = Inr (Some adj, s')"
    from web_formula[OF this] show "let web_rate = positive_fraction (filter triggered fb);
             internal_rate = positive_fraction (filter (\<lambda>f. \<not> triggered f) fb);
             current = confidence_threshold (web_search (config s));
             lr = learning_rate (config s);
             new = (if web_rate > internal_rate + 0.15
                    then max 0.5 (current - (web_rate - internal_rate) * lr)
                    else min 0.9 (current + (internal_rate - web_rate) * lr))
         in (web_rate > internal_rate + 0.15 \<or> internal_rate > web_rate + 0.15)
            \<and> adj = Threshold_adjustment current new
            \<and> confidence_threshold (web_search (config s')) = new"
      unfolding Let_def by (simp add: update_single)
  qed
  from a b have "0.5 \<le> confidence_threshold (web_search (config (runs batches (load_config now NoFile))))
   \<and> confidence_threshold (web_search (config (runs batches (load_config now NoFile)))) \<le> 0.9
   \<and> 0.5 \<le> confidence_threshold (web_search (config (runs batches (load_config now Unreadable))))
   \<and> confidence_threshold (web_search (config (runs batches (load_config now Unreadable)))) \<le> 0.9"
    by (simp add: config_ok_def)
  with c show ?thesis by blast
qed



lemmas eval_defs =
  update_from_feedback_def analyze_web_search_performance_def analyze_confidence_calibration_def
  analyze_judge_correlation_def record_performance_def performance_entry_of_def
  load_config_def save_config_def default_config_def update_def
  test_batch_def test_entry_def triggered_def confidence_of_def dict_get_def np_mean_def
  slice_from_def Let_def

text \<open>C1 on one run over the batch of the repository's own test.\<close>

theorem threshold_invariant_witness:
  "confidence_threshold (web_search (config (runs [(''t1'', test_batch)] (load_config ''t0'' NoFile)))) = 0.625
   \<and> analyze_web_search_performance ''t1'' test_batch (load_config ''t0'' NoFile)
       = Inr (Some (Threshold_adjustment 0.7 0.625),
           update ''t1'' [Web_search \<lparr> confidence_threshold = 0.625, judge_threshold = 5, enabled = True \<rparr>]
             (load_config ''t0'' NoFile))
   \<and> positive_fraction (filter triggered test_batch) = 1
   \<and> positive_fraction (filter (\<lambda>f. \<not> triggered f) test_batch) = 0.25"
  using threshold_invariant[of "[(''t1'', test_batch)]" "''t0''" "''t1''" test_batch
      "load_config ''t0'' NoFile" "Threshold_adjustment 0.7 0.625"
      "update ''t1'' [Web_search \<lparr> confidence_threshold = 0.625, judge_threshold = 5, enabled = True \<rparr>]
             (load_config ''t0'' NoFile)"]
  by (simp add: eval_defs positive_fraction_def)

subsection \<open>Frame of a run\<close>

lemma update_history:
  "performance_history (config (update now [u] s))
   = (case u of Performance_history h \<Rightarrow> h | _ \<Rightarrow> performance_history (config s))"
  by (cases u) (simp_all add: update_single)

lemma web_frame:
  assumes "analyze_web_search_performance now fb s = Inr (a, s')"
  shows "performance_history (config s') = performance_history (config s)"
    and "version (config s') = version (config s) + (case a of None \<Rightarrow> 0 | Some _ \<Rightarrow> 1)"
  using web_step[OF assms] by (auto simp: update_history update_version)

lemma calibration_frame:
  assumes "analyze_confidence_calibration now fb s = Inr (a, s')"
  shows "performance_history (config s') = performance_history (config s)"
    and "version (config s') = version (config s) + (case a of None \<Rightarrow> 0 | Some _ \<Rightarrow> 1)"
  using calibration_step[OF assms] by (auto simp: update_history update_version)

lemma judge_frame:
  assumes "analyze_judge_correlation now fb s = Inr (a, s')"
  shows "performance_history (config s') = performance_history (config s)"
    and "version (config s') = version (config s) + (case a of None \<Rightarrow> 0 | Some _ \<Rightarrow> 1)"
  using judge_step[OF assms] by (auto simp: update_history update_version)

lemma web_succeeds:
  assumes "list_all (\<lambda>f. feedback_type f \<noteq> None) fb"
  shows "\<exists>a s'. analyze_web_search_performance now fb s = Inr (a, s')"
proof -
  let ?web = "filter triggered fb"
  let ?int = "filter (\<lambda>f. \<not> triggered f) fb"
  have w: "list_all (\<lambda>f. feedback_type f \<noteq> None) ?web"
    and i: "list_all (\<lambda>f. feedback_type f \<noteq> None) ?int"
    using assms by (simp_all add: list_all_iff)
  obtain wp where wp: "count_positive ?web = Inr wp"
    using count_positive_well_formed[OF w] by blast
  obtain ip where ip: "count_positive ?int = Inr ip"
    using count_positive_well_formed[OF i] by blast
  show ?thesis
    unfolding analyze_web_search_performance_def Let_def wp ip by simp
qed

lemma calibration_succeeds:
  assumes "list_all (\<lambda>f. feedback_type f \<noteq> None) fb"
  shows "\<exists>a s'. analyze_confidence_calibration now fb s = Inr (a, s')"
proof -
  let ?high = "filter (\<lambda>f. confidence_of f \<ge> 0.7) fb"
  have h: "list_all (\<lambda>f. feedback_type f \<noteq> None) ?high"
    using assms by (simp add: list_all_iff)
  obtain n where n: "count_positive ?high = Inr n"
    using count_positive_well_formed[OF h] by blast
  show ?thesis
    unfolding analyze_confidence_calibration_def Let_def n by simp
qed



subsection \<open>Exceptions and effects of a run\<close>


lemma run_unfold:
  assumes "min_samples (config s) \<le> int (length fb)"
  shows "update_from_feedback now fb s =
        (case analyze_web_search_performance now fb s of
           Inl e \<Rightarrow> (Inl e, s)
         | Inr (web_adjustment, s1) \<Rightarrow>
        (case analyze_confidence_calibration now fb s1 of
           Inl e \<Rightarrow> (Inl e, s1)
         | Inr (confidence_adjustment, s2) \<Rightarrow>
        (case analyze_judge_correlation now fb s2 of
           Inl e \<Rightarrow> (Inl e, s2)
         | Inr (judge_adjustment, s3) \<Rightarrow>
        (case record_performance now fb s3 of
           Inl e \<Rightarrow> (Inl e, s3)
         | Inr s4 \<Rightarrow>
             (Inr (Adjustments (concat (map (\<lambda>a. case a of None \<Rightarrow> [] | Some x \<Rightarrow> [x]) [web_adjustment, confidence_adjustment, judge_adjustment]))), s4)))))"
  using assms unfolding update_from_feedback_def by simp

lemma run_error_history:
  assumes "fst (update_from_feedback now fb s) = Inl e"
  shows "performance_history (config (snd (update_from_feedback now fb s)))
         = performance_history (config s)"
proof (cases "int (length fb) < min_samples (config s)")
  case True
  with assms show ?thesis by (simp add: update_from_feedback_def)
next
  case False
  then have ge: "min_samples (config s) \<le> int (length fb)" by simp
  show ?thesis
  proof (cases "analyze_web_search_performance now fb s")
    case (Inl e1)
    then show ?thesis by (simp add: run_unfold[OF ge])
  next
    case (Inr r1)
    obtain a1 s1 where w: "analyze_web_search_performance now fb s = Inr (a1, s1)"
      using Inr by (cases r1) auto
    note h1 = web_frame(1)[OF w]
    show ?thesis
    proof (cases "analyze_confidence_calibration now fb s1")
      case (Inl e2)
      then show ?thesis by (simp add: run_unfold[OF ge] w h1)
    next
      case (Inr r2)
      obtain a2 s2 where c: "analyze_confidence_calibration now fb s1 = Inr (a2, s2)"
        using Inr by (cases r2) auto
      note h2 = calibration_frame(1)[OF c]
      show ?thesis
      proof (cases "analyze_judge_correlation now fb s2")
        case (Inl e3)
        then show ?thesis by (simp add: run_unfold[OF ge] w c h1 h2)
      next
        case (Inr r3)
        obtain a3 s3 where j: "analyze_judge_correlation now fb s2 = Inr (a3, s3)"
          using Inr by (cases r3) auto
        note h3 = judge_frame(1)[OF j]
        show ?thesis
        proof (cases "record_performance now fb s3")
          case (Inl e4)
          then show ?thesis by (simp add: run_unfold[OF ge] w c j h1 h2 h3)
        next
          case (Inr s4)
          with assms show ?thesis by (simp add: run_unfold[OF ge] w c j)
        qed
      qed
    qed
  qed
qed

text \<open>
  C2 (as the code has it). The analyses are not isolated from each other: they run in
  sequence inside one call that handles no exception. On a batch of at least
  \<open>min_samples\<close> entries, an exception raised by an analysis is the outcome of the whole
  run, and the run ends in the state the analyses completed before it had reached (their
  adjustments stay); whenever a run raises, no performance snapshot has been recorded.
\<close>

theorem first_exception_aborts:
  assumes "min_samples (config s) \<le> int (length fb)"
  shows "(analyze_web_search_performance now fb s = Inl e
            \<longrightarrow> update_from_feedback now fb s = (Inl e, s))
       \<and> (analyze_web_search_performance now fb s = Inr (a1, s1)
            \<and> analyze_confidence_calibration now fb s1 = Inl e
            \<longrightarrow> update_from_feedback now fb s = (Inl e, s1))
       \<and> (analyze_web_search_performance now fb s = Inr (a1, s1)
            \<and> analyze_confidence_calibration now fb s1 = Inr (a2, s2)
            \<and> analyze_judge_correlation now fb s2 = Inl e
            \<longrightarrow> update_from_feedback now fb s = (Inl e, s2))
       \<and> (fst (update_from_feedback now fb s) = Inl e
            \<longrightarrow> performance_history (config (snd (update_from_feedback now fb s)))
                 = performance_history (config s))"
  using run_error_history[of now fb s e]
  by (simp add: run_unfold[OF assms])

text \<open>
  C2 on the batch whose first entry lacks \<open>feedback_type\<close>: the web-search analysis raises
  KeyError, and so does the run, leaving the state and the history as they were.
\<close>

theorem first_exception_aborts_witness:
  "min_samples (config (load_config ''t0'' NoFile)) \<le> int (length missing_type_batch)
   \<and> analyze_web_search_performance ''t1'' missing_type_batch (load_config ''t0'' NoFile) = Inl KeyError
   \<and> update_from_feedback ''t1'' missing_type_batch (load_config ''t0'' NoFile)
       = (Inl KeyError, load_config ''t0'' NoFile)
   \<and> performance_history (config (snd (update_from_feedback ''t1'' missing_type_batch (load_config ''t0'' NoFile)))) = []"
  using first_exception_aborts[of "load_config ''t0'' NoFile" missing_type_batch "''t1''" KeyError]
  by (simp add: eval_defs missing_type_batch_def)

text \<open>
  C2 as stated fails on that batch: the calibration analysis and the judge analysis would
  both complete on it (the first with an adjustment), yet the exception of the web-search
  analysis ends the run before either of them and before the snapshot.
\<close>

theorem failure_isolation_counterexample:
  "min_samples (config (load_config ''t0'' NoFile)) \<le> int (length missing_type_batch)
   \<and> analyze_web_search_performance ''t1'' missing_type_batch (load_config ''t0'' NoFile) = Inl KeyError
   \<and> analyze_confidence_calibration ''t1'' missing_type_batch (load_config ''t0'' NoFile)
       = Inr (Some (Confidence_weights_adjustment
                      [(''retrieval_eval'', 0.5), (''answer_quality'', 0.5)]
                      [(''retrieval_eval'', 0.4), (''answer_quality'', 0.6)]),
              update ''t1'' [Confidence_weights [(''retrieval_eval'', 0.4), (''answer_quality'', 0.6)]]
                (load_config ''t0'' NoFile))
   \<and> analyze_judge_correlation ''t1'' missing_type_batch (load_config ''t0'' NoFile)
       = Inr (None, load_config ''t0'' NoFile)
   \<and> update_from_feedback ''t1'' missing_type_batch (load_config ''t0'' NoFile)
       = (Inl KeyError, load_config ''t0'' NoFile)"
  by (simp add: eval_defs missing_type_batch_def)



lemma record_succeeds:
  assumes "list_all (\<lambda>f. feedback_type f \<noteq> None) fb" and "fb \<noteq> []"
  shows "record_performance now fb s =
         Inr (update now [Performance_history
                 (let history = performance_history (config s)
                        @ [performance_entry_of now fb
                             (length (filter (\<lambda>f. feedback_type f = Some ''positive'') fb))]
                  in if length history > 50 then drop (length history - 50) history else history)] s)"
proof -
  note p = count_positive_well_formed[OF assms(1)]
  let ?h = "performance_history (config s)
     @ [performance_entry_of now fb (length (filter (\<lambda>f. feedback_type f = Some ''positive'') fb))]"
  have "(if length ?h > 50 then slice_from ?h (-50) else ?h)
        = (if length ?h > 50 then drop (length ?h - 50) ?h else ?h)"
    using slice_from_last50[of ?h] by presburger
  with assms(2) show ?thesis
    unfolding record_performance_def Let_def p by simp
qed

lemma adjustment_count:
  "int (length (concat (map (\<lambda>a. case a of None \<Rightarrow> [] | Some x \<Rightarrow> [x]) [a1, a2, a3 :: adjustment option])))
   = (case a1 of None \<Rightarrow> 0 | Some _ \<Rightarrow> 1) + (case a2 of None \<Rightarrow> 0 | Some _ \<Rightarrow> 1)
     + (case a3 of None \<Rightarrow> 0 | Some _ \<Rightarrow> 1)"
  "length (concat (map (\<lambda>a. case a of None \<Rightarrow> [] | Some x \<Rightarrow> [x]) [a1, a2, a3 :: adjustment option])) \<le> 3"
  by (auto split: option.splits)

text \<open>
  C4 (as the code has it). From a configuration satisfying the invariant, a run over a
  batch of at least \<open>min_samples\<close> entries that all carry \<open>feedback_type\<close> completes; it
  appends exactly one snapshot computed over the batch, keeps the 50 most recent
  snapshots, and leaves the file equal to the configuration. The configuration is
  persisted once for the snapshot and once more for each adjustment applied (at most
  three), so the version advances by 1 plus the number of adjustments.
\<close>

theorem run_records_snapshot:
  assumes "config_ok (config s)" and "well_formed fb"
    and "min_samples (config s) \<le> int (length fb)"
  shows "\<exists>adjustments s'.
           update_from_feedback now fb s = (Inr (Adjustments adjustments), s')
         \<and> performance_history (config s') =
             (let history = performance_history (config s)
                    @ [performance_entry_of now fb
                         (length (filter (\<lambda>f. feedback_type f = Some ''positive'') fb))]
              in if length history > 50 then drop (length history - 50) history else history)
         \<and> length (performance_history (config s')) \<le> 50
         \<and> version (config s') = version (config s) + int (length adjustments) + 1
         \<and> length adjustments \<le> 3
         \<and> config_file s' = Stored (config s')"
proof -
  from assms(2) have wf: "list_all (\<lambda>f. feedback_type f \<noteq> None) fb"
    by (simp add: well_formed_def)
  from assms(1,3) have ne: "fb \<noteq> []" by (auto simp: config_ok_def)
  obtain a1 s1 where w: "analyze_web_search_performance now fb s = Inr (a1, s1)"
    using web_succeeds[OF wf] by blast
  have ok1: "config_ok (config s1)" by (rule web_config_ok[OF w assms(1)])
  obtain a2 s2 where c: "analyze_confidence_calibration now fb s1 = Inr (a2, s2)"
    using calibration_succeeds[OF wf] by blast
  have ok2: "config_ok (config s2)" by (rule calibration_config_ok[OF c ok1])
  obtain a3 s3 where j: "analyze_judge_correlation now fb s2 = Inr (a3, s3)"
    using judge_succeeds[OF ok2 wf] by blast
  let ?entry = "performance_entry_of now fb (length (filter (\<lambda>f. feedback_type f = Some ''positive'') fb))"
  let ?new = "\<lambda>h. (let history = h @ [?entry]
                 in if length history > 50 then drop (length history - 50) history else history)"
  let ?s4 = "update now [Performance_history (?new (performance_history (config s3)))] s3"
  let ?adjs = "concat (map (\<lambda>a. case a of None \<Rightarrow> [] | Some x \<Rightarrow> [x]) [a1, a2, a3])"
  have r: "record_performance now fb s3 = Inr ?s4" by (rule record_succeeds[OF wf ne])
  have run: "update_from_feedback now fb s = (Inr (Adjustments ?adjs), ?s4)"
    by (simp add: run_unfold[OF assms(3)] w c j r)
  have h3: "performance_history (config s3) = performance_history (config s)"
    using web_frame(1)[OF w] calibration_frame(1)[OF c] judge_frame(1)[OF j] by simp
  have hist: "performance_history (config ?s4) = ?new (performance_history (config s))"
    by (simp add: update_history h3)
  have len: "length (?new (performance_history (config s))) \<le> 50"
    by (simp add: Let_def)
  have v3: "version (config s3) = version (config s) + int (length ?adjs)"
    using web_frame(2)[OF w] calibration_frame(2)[OF c] judge_frame(2)[OF j]
    by (simp only: adjustment_count(1))
  have ver: "version (config ?s4) = version (config s) + int (length ?adjs) + 1"
    by (simp only: update_version v3)
  have stored: "config_file ?s4 = Stored (config ?s4)" by (rule update_single(2))
  from run hist len ver adjustment_count(2)[of a1 a2 a3] stored show ?thesis
    by (intro exI[of _ ?adjs] exI[of _ ?s4]) (simp only: simp_thms)
qed

text \<open>C4 on the batch of the repository's own test, from a first start.\<close>

theorem run_records_snapshot_witness:
  "config_ok (config (load_config ''t0'' NoFile)) \<and> well_formed test_batch
   \<and> min_samples (config (load_config ''t0'' NoFile)) \<le> int (length test_batch)
   \<and> (\<exists>adjustments s'.
           update_from_feedback ''t1'' test_batch (load_config ''t0'' NoFile)
             = (Inr (Adjustments adjustments), s')
         \<and> performance_history (config s') =
             [\<lparr> entry_timestamp = ''t1'', total_feedback = 8, positive_rate = 5 / 8,
                 avg_confidence = Num (109 / 160), web_search_usage = 1 / 2 \<rparr>]
         \<and> version (config s') = 2 + int (length adjustments) + 1
         \<and> config_file s' = Stored (config s'))"
  using run_records_snapshot[of "load_config ''t0'' NoFile" test_batch "''t1''"]
  by (simp add: eval_defs config_ok_def well_formed_def metrics_def)

text \<open>
  C4 as stated fails on that batch: two analyses adjust, each persisting the configuration,
  and the version goes from 2 to 5 in the one run.
\<close>

theorem single_persist_counterexample:
  "min_samples (config (load_config ''t0'' NoFile)) \<le> int (length test_batch)
   \<and> version (config (load_config ''t0'' NoFile)) = 2
   \<and> version (config (snd (update_from_feedback ''t1'' test_batch (load_config ''t0'' NoFile)))) = 5
   \<and> fst (update_from_feedback ''t1'' test_batch (load_config ''t0'' NoFile))
       = Inr (Adjustments
           [Threshold_adjustment 0.7 0.625,
            Confidence_weights_adjustment
              [(''retrieval_eval'', 0.5), (''answer_quality'', 0.5)]
              [(''retrieval_eval'', 0.4), (''answer_quality'', 0.6)]])"
  by (simp add: eval_defs)


subsection \<open>The judge-weight update\<close>


text \<open>
  C9. Whenever the judge-weight analysis applies an update, the batch has at least ten
  entries, the correlations are all finite with a positive sum of absolute values, the
  largest change exceeds \<open>0.05\<close>, and each new weight is the blend
  \<open>current[m] * (1 - learning_rate * 0.5) + target[m] * (learning_rate * 0.5)\<close> divided by
  the total of the three blends, so that relevance, factuality and completeness sum to 1.
  (\<open>blend\<close> reads a missing current or target weight as \<open>1/3\<close>, as the source does.)
\<close>

theorem judge_update_renormalized:
  assumes "analyze_judge_correlation now fb s = Inr (Some adj, s')"
  shows "\<exists>correlations corr.
           10 \<le> length fb
         \<and> correlations_of metrics fb = Inr correlations
         \<and> finite_values correlations = Some corr
         \<and> 0 < total_corr_of corr
         \<and> (let current = judge_weights (config s);
                 lr = learning_rate (config s) * 0.5;
                 target = target_weights_of corr;
                 total = blend current target lr ''relevance'' + blend current target lr ''factuality''
                         + blend current target lr ''completeness'';
                 new = judge_weights (config s')
             in total \<noteq> 0
                \<and> new = [(''relevance'', blend current target lr ''relevance'' / total),
                         (''factuality'', blend current target lr ''factuality'' / total),
                         (''completeness'', blend current target lr ''completeness'' / total)]
                \<and> dict_get new ''relevance'' 0 + dict_get new ''factuality'' 0
                    + dict_get new ''completeness'' 0 = 1
                \<and> max_change_of current new > 0.05
                \<and> adj = Judge_weights_adjustment current new corr)"
proof -
  let ?cur = "judge_weights (config s)"
  let ?lr = "learning_rate (config s) * 0.5"
  from assms have len: "10 \<le> length fb"
    unfolding analyze_judge_correlation_def by (auto split: if_splits)
  from assms len obtain c where c: "correlations_of metrics fb = Inr c"
    unfolding analyze_judge_correlation_def by (cases "correlations_of metrics fb") auto
  from assms len c have cne: "c \<noteq> []"
    unfolding analyze_judge_correlation_def by (auto split: if_splits)
  from assms len c cne obtain corr where corr: "finite_values c = Some corr"
    unfolding analyze_judge_correlation_def by (cases "finite_values c") auto
  let ?tgt = "target_weights_of corr"
  let ?new = "renormalized ?cur ?tgt ?lr"
  from assms len c cne corr
  have tc: "0 < total_corr_of corr"
    and tot: "blend_total ?cur ?tgt ?lr \<noteq> 0"
    and mc: "max_change_of ?cur ?new > 0.05"
    and adj: "adj = Judge_weights_adjustment ?cur ?new corr"
    and s': "s' = update now [Judge_weights ?new] s"
    unfolding analyze_judge_correlation_def Let_def
    by (auto split: if_splits)
  have jw: "judge_weights (config s') = ?new" by (simp add: s' update_single)
  have new: "?new = [(''relevance'', blend ?cur ?tgt ?lr ''relevance'' / blend_total ?cur ?tgt ?lr),
                     (''factuality'', blend ?cur ?tgt ?lr ''factuality'' / blend_total ?cur ?tgt ?lr),
                     (''completeness'', blend ?cur ?tgt ?lr ''completeness'' / blend_total ?cur ?tgt ?lr)]"
    by (simp add: renormalized_def blended_weights_def metrics_def)
  note sum = renormalized_sum[OF tot, of 0]
  show ?thesis
    apply (intro exI[of _ c] exI[of _ corr])
    unfolding Let_def jw
    using len c corr tc tot new sum mc adj
    by (simp only: blend_total_eq[symmetric] simp_thms)
qed

text \<open>
  C9 on ten entries judged on relevance only, with a learning rate of \<open>0.5\<close>: the update
  is applied and the new weights \<open>33/70\<close>, \<open>23/70\<close>, \<open>1/5\<close> sum to 1.
\<close>

theorem judge_update_renormalized_witness:
  "analyze_judge_correlation ''t1'' judged_batch fast_state
     = Inr (Some (Judge_weights_adjustment
                    [(''relevance'', 0.4), (''factuality'', 0.4), (''completeness'', 0.2)]
                    [(''relevance'', 33 / 70), (''factuality'', 23 / 70), (''completeness'', 1 / 5)]
                    [(''relevance'', 4)]),
            update ''t1'' [Judge_weights
                    [(''relevance'', 33 / 70), (''factuality'', 23 / 70), (''completeness'', 1 / 5)]]
              fast_state)
   \<and> judge_weights (config (update ''t1'' [Judge_weights
                    [(''relevance'', 33 / 70), (''factuality'', 23 / 70), (''completeness'', 1 / 5)]]
              fast_state))
       = [(''relevance'', 33 / 70), (''factuality'', 23 / 70), (''completeness'', 1 / 5)]
   \<and> dict_get [(''relevance'', 33 / 70), (''factuality'', 23 / 70), (''completeness'', 1 / 5)] ''relevance'' 0
       + dict_get [(''relevance'', 33 / 70), (''factuality'', 23 / 70), (''completeness'', 1 / 5)] ''factuality'' 0
       + dict_get [(''relevance'', 33 / 70), (''factuality'', 23 / 70), (''completeness'', 1 / 5)] ''completeness'' 0
       = 1"
proof -
  let ?new = "[(''relevance'', 33 / 70), (''factuality'', 23 / 70), (''completeness'', 1 / 5 :: real)]"
  have e: "analyze_judge_correlation ''t1'' judged_batch fast_state
     = Inr (Some (Judge_weights_adjustment
                    [(''relevance'', 0.4), (''factuality'', 0.4), (''completeness'', 0.2)]
                    ?new [(''relevance'', 4)]),
            update ''t1'' [Judge_weights ?new] fast_state)"
    by (simp add: eval_defs judged_batch_def relevance_entry_def fast_state_def metrics_def
        total_corr_of_def target_weights_of_def blend_total_def blended_weights_def renormalized_def
        max_change_of_def blend_def)
  have w: "judge_weights (config (update ''t1'' [Judge_weights ?new] fast_state)) = ?new"
    by (simp add: update_single)
  from judge_update_renormalized[OF e]
  have "dict_get (judge_weights (config (update ''t1'' [Judge_weights ?new] fast_state))) ''relevance'' 0
      + dict_get (judge_weights (config (update ''t1'' [Judge_weights ?new] fast_state))) ''factuality'' 0
      + dict_get (judge_weights (config (update ''t1'' [Judge_weights ?new] fast_state))) ''completeness'' 0
      = 1"
    unfolding Let_def by blast
  with e w show ?thesis by (simp only: simp_thms)
qed


end
